theory Spec2Isabelle
  imports Complex_Main "HOL-Library.Word" "HOL-Library.Signed_Division" "HOL-Library.Log_Nat"
begin

section \<open>Go integers\<close>

text \<open>
  Go's \<open>int64\<close>, and \<open>int\<close> on a 64-bit platform, are 64-bit two's complement
  integers: \<open>+\<close>, \<open>-\<close> and \<open>*\<close> wrap around, comparisons are signed, and \<open>/\<close>
  and \<open>%\<close> truncate towards zero. The divisors in this library are non-zero constants.
\<close>

type_synonym int64 = "64 word"

definition go_div :: "int64 \<Rightarrow> int64 \<Rightarrow> int64" where
  "go_div a b = word_of_int (sint a sdiv sint b)"

definition go_mod :: "int64 \<Rightarrow> int64 \<Rightarrow> int64" where
  "go_mod a b = word_of_int (sint a smod sint b)"

section \<open>The strconv and strings functions the library calls\<close>

text \<open>
  A Go string is a sequence of bytes, here a \<open>string\<close> (a list of 8-bit \<open>char\<close>);
  \<open>len\<close> is \<open>length\<close> and \<open>s[i]\<close> is a byte.
\<close>

definition is_digit :: "char \<Rightarrow> bool" where
  "is_digit c \<longleftrightarrow> (48::nat) \<le> of_char c \<and> of_char c \<le> (57::nat)"

definition digit_val :: "char \<Rightarrow> nat" where
  "digit_val c = of_char c - 48"

definition digit_char :: "nat \<Rightarrow> char" where
  "digit_char d = char_of (48 + d)"

text \<open>Decimal digits of a natural number, most significant first.\<close>

fun digits :: "nat \<Rightarrow> string" where
  "digits n = (if n < 10 then [digit_char n] else digits (n div 10) @ [digit_char (n mod 10)])"

declare digits.simps [simp del]

text \<open>\<open>strconv.FormatInt(i, 10)\<close>, which is also what \<open>%d\<close> prints.\<close>

definition itoa :: "int \<Rightarrow> string" where
  "itoa i = (if i < 0 then CHR ''-'' # digits (nat (- i)) else digits (nat i))"

definition FormatInt :: "int64 \<Rightarrow> string" where
  "FormatInt w = itoa (sint w)"

datatype num_error = ErrSyntax | ErrRange

definition maxUint64 :: nat where
  "maxUint64 = 18446744073709551615"

text \<open>
  The loop of \<open>strconv.ParseUint(s, 10, 64)\<close>: each byte must be a decimal digit (with an
  explicit base 10 an underscore is a syntax error), and the value must stay below
  \<open>2^64\<close>. The checks are in the order of the Go loop: the overflow of a prefix is
  reported before a later byte is looked at.
\<close>

fun parseUint_loop :: "nat \<Rightarrow> string \<Rightarrow> nat \<times> num_error option" where
  "parseUint_loop n [] = (n, None)"
| "parseUint_loop n (c # cs) =
     (if \<not> is_digit c then (0, Some ErrSyntax)
      else if n \<ge> maxUint64 div 10 + 1 then (maxUint64, Some ErrRange)
      else let n1 = n * 10 + digit_val c
           in if n1 > maxUint64 then (maxUint64, Some ErrRange)
              else parseUint_loop n1 cs)"

definition ParseUint :: "string \<Rightarrow> nat \<times> num_error option" where
  "ParseUint s = (if s = [] then (0, Some ErrSyntax) else parseUint_loop 0 s)"

text \<open>
  \<open>strconv.ParseInt(s, 10, 64)\<close>. Go returns a value together with the error: 0 with a
  syntax error, the nearest bound with a range error.
\<close>

definition ParseInt :: "string \<Rightarrow> int64 \<times> num_error option" where
  "ParseInt s =
     (case s of
        [] \<Rightarrow> (0, Some ErrSyntax)
      | c # cs \<Rightarrow>
          let neg = (c = CHR ''-'');
              s' = (if c = CHR ''+'' \<or> c = CHR ''-'' then cs else s);
              (un, err) = ParseUint s'
          in if err = Some ErrSyntax then (0, err)
             else if \<not> neg \<and> un \<ge> 2 ^ 63 then (word_of_int (2 ^ 63 - 1), Some ErrRange)
             else if neg \<and> un > 2 ^ 63 then (word_of_int (- (2 ^ 63)), Some ErrRange)
             else (if neg then - of_nat un else of_nat un, None))"

text \<open>
  \<open>strconv.Atoi\<close>: for a string shorter than 19 bytes Go runs a loop of its own (sign,
  then digits only, at least one), which accepts the same strings with the same values
  as \<open>ParseInt(s, 10, 0)\<close>, the path of the longer strings; \<open>int\<close> has 64 bits.
\<close>

definition Atoi :: "string \<Rightarrow> int64 \<times> num_error option" where
  "Atoi s = ParseInt s"

text \<open>\<open>strings.Split(s, sep)\<close> for a one-byte separator.\<close>

fun Split :: "char \<Rightarrow> string \<Rightarrow> string list" where
  "Split sep [] = [[]]"
| "Split sep (c # cs) =
     (if c = sep then [] # Split sep cs
      else (case Split sep cs of [] \<Rightarrow> [[c]] | p # ps \<Rightarrow> (c # p) # ps))"

text \<open>\<open>strings.Contains(s, sep)\<close> for a one-byte \<open>sep\<close>.\<close>

definition Contains :: "string \<Rightarrow> char \<Rightarrow> bool" where
  "Contains s sep \<longleftrightarrow> sep \<in> set s"

text \<open>
  \<open>string(b)\<close> for a byte \<open>b\<close> is the UTF-8 encoding of the code point \<open>b\<close>: the byte
  itself below 128, two bytes from 128 on.
\<close>

definition string_of_byte :: "char \<Rightarrow> string" where
  "string_of_byte b =
     (let n = (of_char b :: nat)
      in if n < 128 then [b] else [char_of (192 + n div 64), char_of (128 + n mod 64)])"

section \<open>JSON documents\<close>

text \<open>
  The bytes handed to \<open>json.Unmarshal\<close> and produced by \<open>json.Marshal\<close> are
  represented by the JSON value they denote; a number keeps its literal text (a literal
  of the JSON number grammar), since decoding into an integer depends on it, and a
  string is the Go string that decoding the literal yields, with the escapes resolved.
  Bytes that are not a JSON document are \<open>None\<close>.
\<close>

datatype json =
    JNull
  | JBool bool
  | JNumber string
  | JString string
  | JArray "json list"
  | JObject "(string \<times> json) list"

datatype json_error = SyntaxError | UnmarshalTypeError



text \<open>
  \<open>utf8.DecodeRuneInString\<close>, which the JSON encoder calls on the bytes from 128 on.
  It returns the code point and the number of bytes of the well-formed UTF-8 encoding
  at the start of the string, and \<open>(RuneError, 1)\<close> when there is none. \<open>lead_size\<close>
  and \<open>accept_range\<close> are the two tables of the package, indexed by the first byte:
  the length of the encoding it starts (0 for a byte that starts none) and the bounds
  of the second byte, which exclude the overlong forms, the surrogates and the code
  points above \<open>U+10FFFF\<close>.
\<close>

definition RuneError :: nat where
  "RuneError = 0xFFFD"

definition lead_size :: "nat \<Rightarrow> nat" where
  "lead_size s0 =
     (if s0 < 0x80 then 1
      else if s0 < 0xC2 then 0
      else if s0 < 0xE0 then 2
      else if s0 < 0xF0 then 3
      else if s0 < 0xF5 then 4
      else 0)"

definition accept_range :: "nat \<Rightarrow> nat \<times> nat" where
  "accept_range s0 =
     (if s0 = 0xE0 then (0xA0, 0xBF)
      else if s0 = 0xED then (0x80, 0x9F)
      else if s0 = 0xF0 then (0x90, 0xBF)
      else if s0 = 0xF4 then (0x80, 0x8F)
      else (0x80, 0xBF))"

definition DecodeRuneInString :: "string \<Rightarrow> nat \<times> nat" where
  "DecodeRuneInString s =
     (let n = length s
      in if n < 1 then (RuneError, 0)
         else
           let s0 = of_char (s ! 0); sz = lead_size s0; (lo, hi) = accept_range s0
           in if sz = 1 then (s0, 1)
              else if sz = 0 then (RuneError, 1)
              else if n < sz then (RuneError, 1)
              else
                let s1 = of_char (s ! 1)
                in if s1 < lo \<or> hi < s1 then (RuneError, 1)
                   else if sz \<le> 2 then (s0 mod 32 * 64 + s1 mod 64, 2)
                   else
                     let s2 = of_char (s ! 2)
                     in if s2 < 0x80 \<or> 0xBF < s2 then (RuneError, 1)
                        else if sz \<le> 3 then
                          (s0 mod 16 * 4096 + s1 mod 64 * 64 + s2 mod 64, 3)
                        else
                          let s3 = of_char (s ! 3)
                          in if s3 < 0x80 \<or> 0xBF < s3 then (RuneError, 1)
                             else (s0 mod 8 * 262144 + s1 mod 64 * 4096
                                     + s2 mod 64 * 64 + s3 mod 64, 4))"

text \<open>
  The loop of the encoder over a Go string (\<open>appendString\<close> in \<open>encoding/json\<close>),
  as the string that the literal it writes denotes. A byte below 128 denotes itself,
  written plainly or as an escape. From 128 on the encoder decodes at most four bytes:
  a well-formed encoding is copied (\<open>U+2028\<close> and \<open>U+2029\<close> as escapes of
  themselves), and for \<open>(RuneError, 1)\<close> it writes the escape of \<open>U+FFFD\<close>, whose
  UTF-8 encoding is \<open>EF BF BD\<close>, and moves on by one byte.
\<close>

function appendString :: "string \<Rightarrow> string" where
  "appendString [] = []"
| "appendString (b # bs) =
     (if (of_char b :: nat) < 0x80 then b # appendString bs
      else
        let (c, sz) = DecodeRuneInString (take 4 (b # bs))
        in if c = RuneError \<and> sz = 1 then
             [CHR 0xEF, CHR 0xBF, CHR 0xBD] @ appendString bs
           else take sz (b # bs) @ appendString (drop sz (b # bs)))"
  by pat_completeness auto

termination
proof (relation "measure length")
  fix b :: char and bs x c sz
  assume "x = DecodeRuneInString (take 4 (b # bs))" and "(c, sz) = x"
  moreover have "0 < snd (DecodeRuneInString (take 4 (b # bs)))"
    by (simp add: DecodeRuneInString_def Let_def split: prod.split)
  ultimately have "0 < sz"
    by (metis snd_conv)
  then show "(drop sz (b # bs), b # bs) \<in> measure length"
    by simp
qed simp_all

text \<open>\<open>utf8.ValidString\<close>: the string is a sequence of well-formed encodings.\<close>

function ValidString :: "string \<Rightarrow> bool" where
  "ValidString [] = True"
| "ValidString (b # bs) =
     (let (c, sz) = DecodeRuneInString (b # bs)
      in \<not> (c = RuneError \<and> sz = 1) \<and> ValidString (drop sz (b # bs)))"
  by pat_completeness auto

termination
proof (relation "measure length")
  fix b :: char and bs x c sz
  assume "x = DecodeRuneInString (b # bs)" and "(c, sz) = x"
  moreover have "0 < snd (DecodeRuneInString (b # bs))"
    by (simp add: DecodeRuneInString_def Let_def split: prod.split)
  ultimately have "0 < sz"
    by (metis snd_conv)
  then show "(drop sz (b # bs), b # bs) \<in> measure length"
    by simp
qed simp_all

text \<open>
  \<open>json.Marshal\<close> of a string and of an \<open>int\<close>; neither can fail. The string is
  coerced to well-formed UTF-8 by the encoder's loop.
\<close>

definition Marshal_string :: "string \<Rightarrow> json" where
  "Marshal_string s = JString (appendString s)"

definition Marshal_int :: "int64 \<Rightarrow> json" where
  "Marshal_int i = JNumber (FormatInt i)"

section \<open>Errors of the library\<close>

text \<open>One constructor for each \<open>fmt.Errorf\<close> of the functions modelled below.\<close>

datatype error =
    InvalidGameID int64
  | GameIDNotTenDigits int64
  | InvalidGameTypeCode int64
  | InvalidGameIDString num_error
  | GameIDNotIntegerOrString json_error
  | InvalidSeasonYears int64 int64
  | InvalidSeasonFormat string
  | InvalidStartYear string
  | InvalidEndYear string
  | InvalidSeasonInteger int64
  | CannotMarshalInvalidPosition string
  | CannotMarshalInvalidGoalieDecision string
  | CannotMarshalInvalidPeriodType string
  | CannotMarshalInvalidHomeRoad string
  | CannotMarshalInvalidZoneCode string
  | CannotMarshalInvalidDefendingSide string
  | CannotMarshalInvalidGameScheduleState string
  | CannotMarshalInvalidPlayEventType string
  | CannotMarshalInvalidGameType int64

section \<open>Season\<close>

record Season =
  startYear :: int64

definition NewSeason :: "int64 \<Rightarrow> Season" where
  "NewSeason y = \<lparr>startYear = y\<rparr>"

definition FromYears :: "int64 \<Rightarrow> int64 \<Rightarrow> error + Season" where
  "FromYears start end' =
     (let expectedEnd = start + 1
      in if end' \<noteq> expectedEnd then Inl (InvalidSeasonYears start end')
         else Inr (NewSeason start))"

definition StartYear :: "Season \<Rightarrow> int64" where
  "StartYear s = startYear s"

definition EndYear :: "Season \<Rightarrow> int64" where
  "EndYear s = startYear s + 1"

definition Season_ToAPIString :: "Season \<Rightarrow> string" where
  "Season_ToAPIString s = FormatInt (startYear s) @ FormatInt (EndYear s)"

definition Parse :: "string \<Rightarrow> error + Season" where
  "Parse s =
     (if Contains s CHR ''-'' then
        (let parts = Split CHR ''-'' s
         in if length parts \<noteq> 2 then Inl (InvalidSeasonFormat s)
            else (case Atoi (parts ! 0) of
                    (_, Some _) \<Rightarrow> Inl (InvalidStartYear (parts ! 0))
                  | (start, None) \<Rightarrow>
                      (case Atoi (parts ! 1) of
                         (_, Some _) \<Rightarrow> Inl (InvalidEndYear (parts ! 1))
                       | (end', None) \<Rightarrow> FromYears start end')))
      else if length s = 8 then
        (case Atoi (take 4 s) of
           (_, Some _) \<Rightarrow> Inl (InvalidStartYear (take 4 s))
         | (start, None) \<Rightarrow>
             (case Atoi (drop 4 s) of
                (_, Some _) \<Rightarrow> Inl (InvalidEndYear (drop 4 s))
              | (end', None) \<Rightarrow> FromYears start end'))
      else Inl (InvalidSeasonFormat s))"

definition SeasonFromInt :: "int64 \<Rightarrow> error + Season" where
  "SeasonFromInt i =
     (if i <s 10000000 \<or> 99999999 <s i then Inl (InvalidSeasonInteger i)
      else let start = go_div i 10000; end' = go_mod i 10000
           in FromYears start end')"

text \<open>\<open>ToInt\<close> drops the error of \<open>Atoi\<close> and keeps the value returned with it.\<close>

definition Season_ToInt :: "Season \<Rightarrow> int64" where
  "Season_ToInt s = fst (Atoi (Season_ToAPIString s))"

section \<open>GameType\<close>

type_synonym GameType = int64

definition GameType_IsValid :: "GameType \<Rightarrow> bool" where
  "GameType_IsValid g \<longleftrightarrow> g \<in> {1, 2, 3, 4, 9, 10, 12, 19, 20}"

definition GameType_ToInt :: "GameType \<Rightarrow> int64" where
  "GameType_ToInt g = g"

definition GameType_MarshalJSON :: "GameType \<Rightarrow> error + json" where
  "GameType_MarshalJSON g =
     (if \<not> GameType_IsValid g then Inl (CannotMarshalInvalidGameType g)
      else Inr (Marshal_int (GameType_ToInt g)))"

section \<open>GameID\<close>

type_synonym GameID = int64

definition GameID_Season :: "GameID \<Rightarrow> error + Season" where
  "GameID_Season g =
     (if g <s 1000000000 \<or> 9999999999 <s g then Inl (InvalidGameID g)
      else let startYear = go_div g 1000000 in Inr (NewSeason startYear))"

definition GameID_GameType :: "GameID \<Rightarrow> error + int64" where
  "GameID_GameType g =
     (if g <s 1000000000 \<or> 9999999999 <s g then Inl (InvalidGameID g)
      else let gameType = go_mod (go_div g 10000) 100 in Inr gameType)"

definition GameID_GameNumber :: "GameID \<Rightarrow> error + int64" where
  "GameID_GameNumber g =
     (if g <s 1000000000 \<or> 9999999999 <s g then Inl (InvalidGameID g)
      else let gameNumber = go_mod g 10000 in Inr gameNumber)"

text \<open>\<open>Validate\<close> returns an \<open>error\<close>: \<open>None\<close> is Go's \<open>nil\<close>.\<close>

definition GameID_Validate :: "GameID \<Rightarrow> error option" where
  "GameID_Validate g =
     (if g <s 1000000000 \<or> 9999999999 <s g then Some (GameIDNotTenDigits g)
      else (case GameID_GameType g of
              Inl err \<Rightarrow> Some err
            | Inr gameTypeInt \<Rightarrow>
                if \<not> GameType_IsValid gameTypeInt then Some (InvalidGameTypeCode gameTypeInt)
                else None))"



section \<open>Enumerated code types\<close>

text \<open>
  Each type is a Go string type with named constants; any string can be converted to
  it, so a value is a \<open>string\<close> and validity is membership in the constants.
\<close>

type_synonym Position = string

definition PositionCenter :: Position where "PositionCenter = ''C''"
definition PositionLeftWing :: Position where "PositionLeftWing = ''LW''"
definition PositionRightWing :: Position where "PositionRightWing = ''RW''"
definition PositionDefense :: Position where "PositionDefense = ''D''"
definition PositionGoalie :: Position where "PositionGoalie = ''G''"

definition Position_Code :: "Position \<Rightarrow> string" where
  "Position_Code p = p"

definition Position_IsValid :: "Position \<Rightarrow> bool" where
  "Position_IsValid p \<longleftrightarrow>
     p \<in> {PositionCenter, PositionLeftWing, PositionRightWing, PositionDefense, PositionGoalie}"

definition Position_MarshalJSON :: "Position \<Rightarrow> error + json" where
  "Position_MarshalJSON p =
     (if \<not> Position_IsValid p then Inl (CannotMarshalInvalidPosition p)
      else Inr (Marshal_string (Position_Code p)))"

type_synonym Handedness = string

definition HandednessLeft :: Handedness where "HandednessLeft = ''L''"
definition HandednessRight :: Handedness where "HandednessRight = ''R''"

definition Handedness_IsValid :: "Handedness \<Rightarrow> bool" where
  "Handedness_IsValid h \<longleftrightarrow> h = HandednessLeft \<or> h = HandednessRight"

definition Handedness_MarshalJSON :: "Handedness \<Rightarrow> error + json" where
  "Handedness_MarshalJSON h = Inr (Marshal_string h)"

type_synonym GoalieDecision = string

definition GoalieDecisionWin :: GoalieDecision where "GoalieDecisionWin = ''W''"
definition GoalieDecisionLoss :: GoalieDecision where "GoalieDecisionLoss = ''L''"
definition GoalieDecisionTie :: GoalieDecision where "GoalieDecisionTie = ''T''"
definition GoalieDecisionOvertimeLoss :: GoalieDecision where "GoalieDecisionOvertimeLoss = ''OTL''"

definition GoalieDecision_IsValid :: "GoalieDecision \<Rightarrow> bool" where
  "GoalieDecision_IsValid g \<longleftrightarrow>
     g \<in> {GoalieDecisionWin, GoalieDecisionLoss, GoalieDecisionTie, GoalieDecisionOvertimeLoss}"

definition GoalieDecision_MarshalJSON :: "GoalieDecision \<Rightarrow> error + json" where
  "GoalieDecision_MarshalJSON g =
     (if \<not> GoalieDecision_IsValid g then Inl (CannotMarshalInvalidGoalieDecision g)
      else Inr (Marshal_string g))"

type_synonym PeriodType = string

definition PeriodTypeRegulation :: PeriodType where "PeriodTypeRegulation = ''REG''"
definition PeriodTypeOvertime :: PeriodType where "PeriodTypeOvertime = ''OT''"
definition PeriodTypeShootout :: PeriodType where "PeriodTypeShootout = ''SO''"

definition PeriodType_Code :: "PeriodType \<Rightarrow> string" where
  "PeriodType_Code p = p"

definition PeriodType_IsValid :: "PeriodType \<Rightarrow> bool" where
  "PeriodType_IsValid p \<longleftrightarrow>
     p \<in> {PeriodTypeRegulation, PeriodTypeOvertime, PeriodTypeShootout}"

definition PeriodType_MarshalJSON :: "PeriodType \<Rightarrow> error + json" where
  "PeriodType_MarshalJSON p =
     (if \<not> PeriodType_IsValid p then Inl (CannotMarshalInvalidPeriodType p)
      else Inr (Marshal_string (PeriodType_Code p)))"

type_synonym HomeRoad = string

definition HomeRoadHome :: HomeRoad where "HomeRoadHome = ''H''"
definition HomeRoadRoad :: HomeRoad where "HomeRoadRoad = ''R''"

definition HomeRoad_Code :: "HomeRoad \<Rightarrow> string" where
  "HomeRoad_Code h = h"

definition HomeRoad_IsValid :: "HomeRoad \<Rightarrow> bool" where
  "HomeRoad_IsValid h \<longleftrightarrow> h = HomeRoadHome \<or> h = HomeRoadRoad"

definition HomeRoad_MarshalJSON :: "HomeRoad \<Rightarrow> error + json" where
  "HomeRoad_MarshalJSON h =
     (if \<not> HomeRoad_IsValid h then Inl (CannotMarshalInvalidHomeRoad h)
      else Inr (Marshal_string (HomeRoad_Code h)))"

type_synonym ZoneCode = string

definition ZoneCodeOffensive :: ZoneCode where "ZoneCodeOffensive = ''O''"
definition ZoneCodeDefensive :: ZoneCode where "ZoneCodeDefensive = ''D''"
definition ZoneCodeNeutral :: ZoneCode where "ZoneCodeNeutral = ''N''"

definition ZoneCode_Code :: "ZoneCode \<Rightarrow> string" where
  "ZoneCode_Code z = z"

definition ZoneCode_IsValid :: "ZoneCode \<Rightarrow> bool" where
  "ZoneCode_IsValid z \<longleftrightarrow> z \<in> {ZoneCodeOffensive, ZoneCodeDefensive, ZoneCodeNeutral}"

definition ZoneCode_MarshalJSON :: "ZoneCode \<Rightarrow> error + json" where
  "ZoneCode_MarshalJSON z =
     (if \<not> ZoneCode_IsValid z then Inl (CannotMarshalInvalidZoneCode z)
      else Inr (Marshal_string (ZoneCode_Code z)))"

type_synonym DefendingSide = string

definition DefendingSideLeft :: DefendingSide where "DefendingSideLeft = ''left''"
definition DefendingSideRight :: DefendingSide where "DefendingSideRight = ''right''"

definition DefendingSide_IsValid :: "DefendingSide \<Rightarrow> bool" where
  "DefendingSide_IsValid d \<longleftrightarrow> d = DefendingSideLeft \<or> d = DefendingSideRight"

definition DefendingSide_MarshalJSON :: "DefendingSide \<Rightarrow> error + json" where
  "DefendingSide_MarshalJSON d =
     (if d = [] then Inr (Marshal_string [])
      else if \<not> DefendingSide_IsValid d then Inl (CannotMarshalInvalidDefendingSide d)
      else Inr (Marshal_string d))"

type_synonym GameScheduleState = string

definition GameScheduleStateOK :: GameScheduleState where
  "GameScheduleStateOK = ''OK''"
definition GameScheduleStateDontPlay :: GameScheduleState where
  "GameScheduleStateDontPlay = ''DONT_PLAY''"
definition GameScheduleStatePostponed :: GameScheduleState where
  "GameScheduleStatePostponed = ''PPD''"
definition GameScheduleStateSuspended :: GameScheduleState where
  "GameScheduleStateSuspended = ''SUSP''"
definition GameScheduleStateTBD :: GameScheduleState where
  "GameScheduleStateTBD = ''TBD''"
definition GameScheduleStateCompleted :: GameScheduleState where
  "GameScheduleStateCompleted = ''COMPLETED''"
definition GameScheduleStateCancelled :: GameScheduleState where
  "GameScheduleStateCancelled = ''CNCL''"

definition GameScheduleState_IsValid :: "GameScheduleState \<Rightarrow> bool" where
  "GameScheduleState_IsValid g \<longleftrightarrow>
     g \<in> {GameScheduleStateOK, GameScheduleStateDontPlay, GameScheduleStatePostponed,
          GameScheduleStateSuspended, GameScheduleStateTBD, GameScheduleStateCompleted,
          GameScheduleStateCancelled}"

definition GameScheduleState_MarshalJSON :: "GameScheduleState \<Rightarrow> error + json" where
  "GameScheduleState_MarshalJSON g =
     (if \<not> GameScheduleState_IsValid g then Inl (CannotMarshalInvalidGameScheduleState g)
      else Inr (Marshal_string g))"

type_synonym PlayEventType = string

definition PlayEventTypeGameStart :: PlayEventType where
  "PlayEventTypeGameStart = ''game-start''"
definition PlayEventTypePeriodStart :: PlayEventType where
  "PlayEventTypePeriodStart = ''period-start''"
definition PlayEventTypePeriodEnd :: PlayEventType where
  "PlayEventTypePeriodEnd = ''period-end''"
definition PlayEventTypeGameEnd :: PlayEventType where
  "PlayEventTypeGameEnd = ''game-end''"
definition PlayEventTypeFaceoff :: PlayEventType where
  "PlayEventTypeFaceoff = ''faceoff''"
definition PlayEventTypeHit :: PlayEventType where
  "PlayEventTypeHit = ''hit''"
definition PlayEventTypeGiveaway :: PlayEventType where
  "PlayEventTypeGiveaway = ''giveaway''"
definition PlayEventTypeTakeaway :: PlayEventType where
  "PlayEventTypeTakeaway = ''takeaway''"
definition PlayEventTypeShotOnGoal :: PlayEventType where
  "PlayEventTypeShotOnGoal = ''shot-on-goal''"
definition PlayEventTypeMissedShot :: PlayEventType where
  "PlayEventTypeMissedShot = ''missed-shot''"
definition PlayEventTypeBlockedShot :: PlayEventType where
  "PlayEventTypeBlockedShot = ''blocked-shot''"
definition PlayEventTypeGoal :: PlayEventType where
  "PlayEventTypeGoal = ''goal''"
definition PlayEventTypePenalty :: PlayEventType where
  "PlayEventTypePenalty = ''penalty''"
definition PlayEventTypeStoppage :: PlayEventType where
  "PlayEventTypeStoppage = ''stoppage''"
definition PlayEventTypeDelayedPenalty :: PlayEventType where
  "PlayEventTypeDelayedPenalty = ''delayed-penalty''"
definition PlayEventTypeFailedShotAttempt :: PlayEventType where
  "PlayEventTypeFailedShotAttempt = ''failed-shot-attempt''"
definition PlayEventTypeShootoutComplete :: PlayEventType where
  "PlayEventTypeShootoutComplete = ''shootout-complete''"
definition PlayEventTypeUnknown :: PlayEventType where
  "PlayEventTypeUnknown = ''unknown''"

definition PlayEventType_IsValid :: "PlayEventType \<Rightarrow> bool" where
  "PlayEventType_IsValid p \<longleftrightarrow>
     p \<in> {PlayEventTypeGameStart, PlayEventTypePeriodStart, PlayEventTypePeriodEnd,
          PlayEventTypeGameEnd, PlayEventTypeFaceoff, PlayEventTypeHit, PlayEventTypeGiveaway,
          PlayEventTypeTakeaway, PlayEventTypeShotOnGoal, PlayEventTypeMissedShot,
          PlayEventTypeBlockedShot, PlayEventTypeGoal, PlayEventTypePenalty,
          PlayEventTypeStoppage, PlayEventTypeDelayedPenalty, PlayEventTypeFailedShotAttempt,
          PlayEventTypeShootoutComplete, PlayEventTypeUnknown}"

definition PlayEventType_MarshalJSON :: "PlayEventType \<Rightarrow> error + json" where
  "PlayEventType_MarshalJSON p =
     (if \<not> PlayEventType_IsValid p then Inl (CannotMarshalInvalidPlayEventType p)
      else Inr (Marshal_string p))"

section \<open>GameSituation\<close>

record GameSituation =
  AwaySkaters :: int64
  AwayGoalieIn :: bool
  HomeSkaters :: int64
  HomeGoalieIn :: bool

text \<open>The result is a pointer: \<open>None\<close> is Go's \<open>nil\<close>.\<close>

definition GameSituationFromCode :: "string \<Rightarrow> GameSituation option" where
  "GameSituationFromCode code =
     (if length code \<noteq> 4 then None
      else let awayGoalieDigit = code ! 0;
               awaySkaterDigit = code ! 1;
               homeSkaterDigit = code ! 2;
               homeGoalieDigit = code ! 3
           in (case Atoi (string_of_byte awaySkaterDigit) of
                 (_, Some _) \<Rightarrow> None
               | (awaySkaters, None) \<Rightarrow>
                   (case Atoi (string_of_byte homeSkaterDigit) of
                      (_, Some _) \<Rightarrow> None
                    | (homeSkaters, None) \<Rightarrow>
                        Some \<lparr>AwaySkaters = awaySkaters,
                              AwayGoalieIn = (awayGoalieDigit = CHR ''1''),
                              HomeSkaters = homeSkaters,
                              HomeGoalieIn = (homeGoalieDigit = CHR ''1'')\<rparr>)))"

definition IsEvenStrength :: "GameSituation \<Rightarrow> bool" where
  "IsEvenStrength g \<longleftrightarrow> AwaySkaters g = HomeSkaters g"

definition IsEmptyNet :: "GameSituation \<Rightarrow> bool" where
  "IsEmptyNet g \<longleftrightarrow> \<not> AwayGoalieIn g \<or> \<not> HomeGoalieIn g"

definition StrengthDescription :: "GameSituation \<Rightarrow> string" where
  "StrengthDescription g =
     (let base = FormatInt (AwaySkaters g) @ ''v'' @ FormatInt (HomeSkaters g)
      in if \<not> AwayGoalieIn g \<or> \<not> HomeGoalieIn g then base @ '' EN''
         else if AwaySkaters g \<noteq> HomeSkaters g then base @ '' PP''
         else base)"

section \<open>GameDate\<close>

text \<open>
  \<open>time.Time\<close> belongs to the standard library: the type of instants is the parameter
  \<open>'t\<close>, \<open>clock\<close> is what \<open>time.Now().UTC()\<close> returns at the moment of the call, and
  \<open>addDate d years months days\<close> is \<open>d.AddDate(years, months, days)\<close>.
\<close>

record 't GameDate =
  isNow :: bool
  date :: 't

definition FromDate :: "'t \<Rightarrow> 't GameDate" where
  "FromDate t = \<lparr>isNow = False, date = t\<rparr>"

text \<open>\<open>Now\<close> leaves the field \<open>date\<close> at the zero value of \<open>time.Time\<close>.\<close>

definition Now :: "'t \<Rightarrow> 't GameDate" where
  "Now zeroTime = \<lparr>isNow = True, date = zeroTime\<rparr>"

definition IsNow :: "'t GameDate \<Rightarrow> bool" where
  "IsNow gd = isNow gd"

definition Date :: "'t \<Rightarrow> 't GameDate \<Rightarrow> 't" where
  "Date clock gd = (if isNow gd then clock else date gd)"

definition AddDays :: "'t \<Rightarrow> ('t \<Rightarrow> int64 \<Rightarrow> int64 \<Rightarrow> int64 \<Rightarrow> 't) \<Rightarrow> 't GameDate \<Rightarrow> int64 \<Rightarrow> 't GameDate" where
  "AddDays clock addDate gd days =
     (let d = Date clock gd;
          newDate = addDate d 0 0 days
      in FromDate newDate)"

section \<open>float64\<close>

text \<open>
  Go's \<open>float64\<close> is IEEE 754 binary64. A finite value is represented by the rational
  number it denotes, and every operation computes the exact rational result and rounds
  it to the nearest binary64 value, ties to even. The two zeros are not distinguished:
  no result modelled below depends on the sign of a zero.
\<close>

datatype float64 = Fin rat | PInf | NInf | NaN

definition pow2 :: "int \<Rightarrow> rat" where
  "pow2 e = (if 0 \<le> e then 2 ^ nat e else 1 / 2 ^ nat (- e))"

text \<open>For \<open>q > 0\<close>, the exponent \<open>e\<close> with \<open>2^e \<le> q < 2^(e+1)\<close>.\<close>

definition ilog2 :: "rat \<Rightarrow> int" where
  "ilog2 q =
     (let (a, b) = quotient_of q;
          k = int (floorlog 2 (nat a)) - int (floorlog 2 (nat b))
      in if pow2 k \<le> q then k else k - 1)"

text \<open>Rounding to the nearest integer, ties to even.\<close>

definition round_even :: "rat \<Rightarrow> int" where
  "round_even x =
     (let f = \<lfloor>x\<rfloor>; d = x - of_int f
      in if d < 1 / 2 then f
         else if 1 / 2 < d then f + 1
         else if even f then f else f + 1)"

text \<open>
  Rounding a rational to binary64: 53 significant bits, exponents from \<open>-1022\<close> (below
  that the spacing stays \<open>2^-1074\<close>, the subnormal numbers), and an infinity when the rounded
  magnitude reaches \<open>2^1024\<close>.
\<close>

definition f64_round :: "rat \<Rightarrow> float64" where
  "f64_round q =
     (if q = 0 then Fin 0
      else let e = max (ilog2 \<bar>q\<bar>) (- 1022);
               ulp = pow2 (e - 52);
               r = of_int (round_even (q / ulp)) * ulp
           in if pow2 1024 \<le> \<bar>r\<bar> then (if 0 < q then PInf else NInf) else Fin r)"

text \<open>\<open>float64(i)\<close> for an integer \<open>i\<close>.\<close>

definition f64_of_int :: "int64 \<Rightarrow> float64" where
  "f64_of_int i = f64_round (of_int (sint i))"

fun f64_mul :: "float64 \<Rightarrow> float64 \<Rightarrow> float64" where
  "f64_mul (Fin a) (Fin b) = f64_round (a * b)"
| "f64_mul NaN _ = NaN"
| "f64_mul _ NaN = NaN"
| "f64_mul (Fin a) PInf = (if a = 0 then NaN else if 0 < a then PInf else NInf)"
| "f64_mul (Fin a) NInf = (if a = 0 then NaN else if 0 < a then NInf else PInf)"
| "f64_mul PInf (Fin b) = (if b = 0 then NaN else if 0 < b then PInf else NInf)"
| "f64_mul NInf (Fin b) = (if b = 0 then NaN else if 0 < b then NInf else PInf)"
| "f64_mul PInf PInf = PInf"
| "f64_mul PInf NInf = NInf"
| "f64_mul NInf PInf = NInf"
| "f64_mul NInf NInf = PInf"

fun f64_add :: "float64 \<Rightarrow> float64 \<Rightarrow> float64" where
  "f64_add (Fin a) (Fin b) = f64_round (a + b)"
| "f64_add NaN _ = NaN"
| "f64_add _ NaN = NaN"
| "f64_add PInf NInf = NaN"
| "f64_add NInf PInf = NaN"
| "f64_add PInf _ = PInf"
| "f64_add NInf _ = NInf"
| "f64_add (Fin a) PInf = PInf"
| "f64_add (Fin a) NInf = NInf"

text \<open>
  Division. A finite non-zero value divided by zero is an infinity, whose sign is the
  dividend's here, as for the positive zero.
\<close>

fun f64_div :: "float64 \<Rightarrow> float64 \<Rightarrow> float64" where
  "f64_div (Fin a) (Fin b) =
     (if b = 0 then (if a = 0 then NaN else if 0 < a then PInf else NInf)
      else f64_round (a / b))"
| "f64_div NaN _ = NaN"
| "f64_div _ NaN = NaN"
| "f64_div (Fin a) PInf = Fin 0"
| "f64_div (Fin a) NInf = Fin 0"
| "f64_div PInf (Fin b) = (if 0 \<le> b then PInf else NInf)"
| "f64_div NInf (Fin b) = (if 0 \<le> b then NInf else PInf)"
| "f64_div PInf PInf = NaN"
| "f64_div PInf NInf = NaN"
| "f64_div NInf PInf = NaN"
| "f64_div NInf NInf = NaN"

text \<open>The comparison \<open>x > y\<close>; it is false when either side is NaN.\<close>

fun f64_gt :: "float64 \<Rightarrow> float64 \<Rightarrow> bool" where
  "f64_gt (Fin a) (Fin b) \<longleftrightarrow> b < a"
| "f64_gt NaN _ \<longleftrightarrow> False"
| "f64_gt _ NaN \<longleftrightarrow> False"
| "f64_gt PInf PInf \<longleftrightarrow> False"
| "f64_gt PInf _ \<longleftrightarrow> True"
| "f64_gt NInf _ \<longleftrightarrow> False"
| "f64_gt (Fin a) NInf \<longleftrightarrow> True"
| "f64_gt (Fin a) PInf \<longleftrightarrow> False"

text \<open>
  Two points the Go specification leaves to the implementation are parameters:
  whether \<open>x*y + z\<close> is fused into one operation with a single rounding (as on arm64)
  or rounded after the product and after the sum (as on amd64), and the result of
  converting to \<open>int\<close> a value that \<open>int\<close> cannot represent.
\<close>

record platform =
  fused_multiply_add :: bool
  int_of_unrepresentable :: "float64 \<Rightarrow> int64"

text \<open>\<open>x*y + z\<close>.\<close>

definition f64_mul_add :: "platform \<Rightarrow> float64 \<Rightarrow> float64 \<Rightarrow> float64 \<Rightarrow> float64" where
  "f64_mul_add pf x y z =
     (case (x, y, z) of
        (Fin a, Fin b, Fin c) \<Rightarrow>
          if fused_multiply_add pf then f64_round (a * b + c)
          else f64_add (f64_mul x y) z
      | _ \<Rightarrow> f64_add (f64_mul x y) z)"

text \<open>\<open>int(x)\<close>: the fraction is discarded (truncation towards zero).\<close>

definition trunc :: "rat \<Rightarrow> int" where
  "trunc q = (if 0 \<le> q then \<lfloor>q\<rfloor> else \<lceil>q\<rceil>)"

definition int_of_f64 :: "platform \<Rightarrow> float64 \<Rightarrow> int64" where
  "int_of_f64 pf x =
     (case x of
        Fin q \<Rightarrow>
          if - (2 ^ 63) \<le> trunc q \<and> trunc q < 2 ^ 63 then word_of_int (trunc q)
          else int_of_unrepresentable pf x
      | _ \<Rightarrow> int_of_unrepresentable pf x)"

text \<open>
  Two ports of Go as examples: amd64 rounds the product and the sum separately and
  converts an unrepresentable value to the smallest \<open>int64\<close>; arm64 fuses them and
  saturates, with 0 for NaN.
\<close>

definition amd64 :: platform where
  "amd64 = \<lparr>fused_multiply_add = False, int_of_unrepresentable = (\<lambda>x. - (2 ^ 63))\<rparr>"

definition arm64 :: platform where
  "arm64 =
     \<lparr>fused_multiply_add = True,
      int_of_unrepresentable =
        (\<lambda>x. case x of
               NaN \<Rightarrow> 0
             | PInf \<Rightarrow> 2 ^ 63 - 1
             | NInf \<Rightarrow> - (2 ^ 63)
             | Fin q \<Rightarrow> if 0 < q then 2 ^ 63 - 1 else - (2 ^ 63))\<rparr>"

section \<open>Box score: team statistics\<close>

record LocalizedString =
  Default :: string

record SkaterStats =
  PlayerID :: int64
  SweaterNumber :: int64
  Name :: LocalizedString
  Position :: Position
  Goals :: int64
  Assists :: int64
  Points :: int64
  PlusMinus :: int64
  PIM :: int64
  Hits :: int64
  PowerPlayGoals :: int64
  SOG :: int64
  FaceoffWinningPctg :: float64
  TOI :: string
  BlockedShots :: int64
  Shifts :: int64
  Giveaways :: int64
  Takeaways :: int64

text \<open>The pointer fields of a goalie are options: \<open>None\<close> is \<open>nil\<close>.\<close>

record GoalieStats =
  PlayerID :: int64
  SweaterNumber :: int64
  Name :: LocalizedString
  Position :: Position
  EvenStrengthShotsAgainst :: string
  PowerPlayShotsAgainst :: string
  ShorthandedShotsAgainst :: string
  SaveShotsAgainst :: string
  SavePctg :: "float64 option"
  EvenStrengthGoalsAgainst :: int64
  PowerPlayGoalsAgainst :: int64
  ShorthandedGoalsAgainst :: int64
  PIM :: "int64 option"
  GoalsAgainst :: int64
  TOI :: string
  Starter :: "bool option"
  Decision :: "GoalieDecision option"
  ShotsAgainst :: int64
  Saves :: int64

record TeamPlayerStats =
  Forwards :: "SkaterStats list"
  Defense :: "SkaterStats list"
  Goalies :: "GoalieStats list"

record TeamGameStats =
  ShotsOnGoal :: int64
  FaceoffWins :: int64
  FaceoffTotal :: int64
  PowerPlayGoals :: int64
  PowerPlayOpportunities :: int64
  PenaltyMinutes :: int64
  Hits :: int64
  BlockedShots :: int64
  Giveaways :: int64
  Takeaways :: int64

text \<open>\<open>SkaterStats{}\<close>: every field at its zero value.\<close>

definition SkaterStats_zero :: SkaterStats where
  "SkaterStats_zero =
     \<lparr>SkaterStats.PlayerID = 0, SkaterStats.SweaterNumber = 0,
      SkaterStats.Name = \<lparr>Default = ''''\<rparr>, SkaterStats.Position = '''', Goals = 0,
      Assists = 0, Points = 0, PlusMinus = 0, SkaterStats.PIM = 0, SkaterStats.Hits = 0,
      SkaterStats.PowerPlayGoals = 0, SOG = 0, FaceoffWinningPctg = Fin 0,
      SkaterStats.TOI = '''', SkaterStats.BlockedShots = 0, Shifts = 0,
      SkaterStats.Giveaways = 0, SkaterStats.Takeaways = 0\<rparr>"

text \<open>\<open>TeamGameStats{}\<close>: every field zero.\<close>

definition TeamGameStats_zero :: TeamGameStats where
  "TeamGameStats_zero =
     \<lparr>ShotsOnGoal = 0, FaceoffWins = 0, FaceoffTotal = 0, PowerPlayGoals = 0,
      PowerPlayOpportunities = 0, PenaltyMinutes = 0, Hits = 0, BlockedShots = 0,
      Giveaways = 0, Takeaways = 0\<rparr>"

definition addFaceoffStats :: "platform \<Rightarrow> TeamGameStats \<Rightarrow> SkaterStats \<Rightarrow> TeamGameStats" where
  "addFaceoffStats pf teamStats skater =
     (if SkaterStats.Position skater = PositionCenter
         \<and> f64_gt (FaceoffWinningPctg skater) (Fin 0) then
        let estimatedFaceoffs = Shifts skater
        in teamStats
             \<lparr>FaceoffTotal := FaceoffTotal teamStats + estimatedFaceoffs,
              FaceoffWins := FaceoffWins teamStats
                + int_of_f64 pf
                    (f64_mul_add pf (f64_of_int estimatedFaceoffs) (FaceoffWinningPctg skater)
                       (Fin (1 / 2)))\<rparr>
      else teamStats)"

text \<open>The body of the loop over the skaters.\<close>

definition addSkater :: "platform \<Rightarrow> TeamGameStats \<Rightarrow> SkaterStats \<Rightarrow> TeamGameStats" where
  "addSkater pf teamStats skater =
     addFaceoffStats pf
       (teamStats
          \<lparr>ShotsOnGoal := ShotsOnGoal teamStats + SOG skater,
           TeamGameStats.PowerPlayGoals :=
             TeamGameStats.PowerPlayGoals teamStats + SkaterStats.PowerPlayGoals skater,
           PenaltyMinutes := PenaltyMinutes teamStats + SkaterStats.PIM skater,
           TeamGameStats.Hits := TeamGameStats.Hits teamStats + SkaterStats.Hits skater,
           TeamGameStats.BlockedShots :=
             TeamGameStats.BlockedShots teamStats + SkaterStats.BlockedShots skater,
           TeamGameStats.Giveaways :=
             TeamGameStats.Giveaways teamStats + SkaterStats.Giveaways skater,
           TeamGameStats.Takeaways :=
             TeamGameStats.Takeaways teamStats + SkaterStats.Takeaways skater\<rparr>)
       skater"

definition aggregateSkaterStats :: "platform \<Rightarrow> TeamGameStats \<Rightarrow> TeamPlayerStats \<Rightarrow> TeamGameStats" where
  "aggregateSkaterStats pf teamStats stats =
     (let allSkaters = Forwards stats @ Defense stats
      in foldl (addSkater pf) teamStats allSkaters)"

text \<open>The body of the loop over the goalies.\<close>

definition addGoalie :: "TeamGameStats \<Rightarrow> GoalieStats \<Rightarrow> TeamGameStats" where
  "addGoalie teamStats goalie =
     (let teamStats' =
            (case GoalieStats.PIM goalie of
               Some pim \<Rightarrow> teamStats\<lparr>PenaltyMinutes := PenaltyMinutes teamStats + pim\<rparr>
             | None \<Rightarrow> teamStats)
      in teamStats'
           \<lparr>PowerPlayOpportunities :=
              PowerPlayOpportunities teamStats' + PowerPlayGoalsAgainst goalie\<rparr>)"

definition aggregateGoalieStats :: "TeamGameStats \<Rightarrow> TeamPlayerStats \<Rightarrow> TeamGameStats" where
  "aggregateGoalieStats teamStats stats = foldl addGoalie teamStats (Goalies stats)"

text \<open>The argument is a pointer in Go; it is taken to be non-nil.\<close>

definition FromTeamPlayerStats :: "platform \<Rightarrow> TeamPlayerStats \<Rightarrow> TeamGameStats" where
  "FromTeamPlayerStats pf stats =
     (let teamStats = TeamGameStats_zero;
          teamStats = aggregateSkaterStats pf teamStats stats;
          teamStats = aggregateGoalieStats teamStats stats
      in teamStats)"

text \<open>
  For stating the totals: the skaters counted for faceoffs, the faceoffs won credited
  to one of them, and the penalty minutes a goalie adds.
\<close>

definition takes_faceoffs :: "SkaterStats \<Rightarrow> bool" where
  "takes_faceoffs s \<longleftrightarrow>
     SkaterStats.Position s = PositionCenter \<and> f64_gt (FaceoffWinningPctg s) (Fin 0)"

definition faceoff_wins :: "platform \<Rightarrow> SkaterStats \<Rightarrow> int64" where
  "faceoff_wins pf s =
     int_of_f64 pf (f64_mul_add pf (f64_of_int (Shifts s)) (FaceoffWinningPctg s) (Fin (1 / 2)))"

definition goalie_pim :: "GoalieStats \<Rightarrow> int64" where
  "goalie_pim g = (case GoalieStats.PIM g of None \<Rightarrow> 0 | Some pim \<Rightarrow> pim)"

definition FaceoffPercentage :: "TeamGameStats \<Rightarrow> float64" where
  "FaceoffPercentage t =
     (if 0 <s FaceoffTotal t then
        f64_mul (f64_div (f64_of_int (FaceoffWins t)) (f64_of_int (FaceoffTotal t))) (Fin 100)
      else Fin 0)"

definition PowerPlayPercentage :: "TeamGameStats \<Rightarrow> float64" where
  "PowerPlayPercentage t =
     (if 0 <s PowerPlayOpportunities t then
        f64_mul
          (f64_div (f64_of_int (TeamGameStats.PowerPlayGoals t))
             (f64_of_int (PowerPlayOpportunities t)))
          (Fin 100)
      else Fin 0)"

section \<open>Facts about the integer operations\<close>

lemma sint_go_div:
  assumes "0 \<le> sint a" "0 < sint b"
  shows "sint (go_div a b) = sint a div sint b"
proof -
  have lt: "sint a < 2 ^ 63"
    using sint_lt [of a] by simp
  have "sint a div sint b \<le> sint a div 1"
    using assms by (intro zdiv_mono2) auto
  moreover have "0 \<le> sint a div sint b"
    using assms by (simp add: pos_imp_zdiv_nonneg_iff)
  ultimately have "signed_take_bit 63 (sint a div sint b) = sint a div sint b"
    using lt by (intro signed_take_bit_int_eq_self) auto
  moreover have "sint a sdiv sint b = sint a div sint b"
    using assms by (simp add: signed_divide_int_def sgn_if)
  ultimately show ?thesis
    by (simp add: go_div_def sint_sbintrunc')
qed

lemma sint_go_mod:
  assumes "0 \<le> sint a" "0 < sint b"
  shows "sint (go_mod a b) = sint a mod sint b"
proof -
  have lt: "sint b < 2 ^ 63"
    using sint_lt [of b] by simp
  have "sint a mod sint b < sint b" "0 \<le> sint a mod sint b"
    using assms by simp_all
  then have "signed_take_bit 63 (sint a mod sint b) = sint a mod sint b"
    using lt by (intro signed_take_bit_int_eq_self) auto
  moreover have "sint a smod sint b = sint a mod sint b"
    using assms by (simp add: signed_modulo_int_def sgn_if)
  ultimately show ?thesis
    by (simp add: go_mod_def sint_sbintrunc')
qed

section \<open>GameID: validation and decomposition\<close>

text \<open>
  Claim C3. \<open>Validate\<close> succeeds on 1000010000 and on 9999049999; it fails on 999999999
  (9 digits) and on 10000000000 (11 digits) with the digit-count error; on 2023050001 it
  fails with the game-type error, while \<open>GameType()\<close> succeeds there and returns 5.
\<close>

theorem GameID_Validate_boundaries:
  "GameID_Validate 1000010000 = None \<and>
   GameID_Validate 9999049999 = None \<and>
   GameID_Validate 999999999 = Some (GameIDNotTenDigits 999999999) \<and>
   GameID_Validate 10000000000 = Some (GameIDNotTenDigits 10000000000) \<and>
   GameID_Validate 2023050001 = Some (InvalidGameTypeCode 5) \<and>
   GameID_GameType 2023050001 = Inr 5"
  by (simp add: GameID_Validate_def GameID_GameType_def GameType_IsValid_def
      go_div_def go_mod_def signed_divide_int_def signed_modulo_int_def)

text \<open>
  Claim C7. For a GameID \<open>g\<close> between 1000000000 and 9999999999 the three decompositions
  succeed; the start year (four digits), the game type (two digits) and the game number
  (four digits) they return recombine to \<open>g\<close>, as integers without wrap-around; and
  \<open>Validate\<close> succeeds when the extracted game type is a known code.
\<close>

theorem GameID_decompose:
  assumes "1000000000 \<le>s g" and "g \<le>s 9999999999"
  shows "\<exists>y t n. GameID_Season g = Inr (NewSeason y) \<and> GameID_GameType g = Inr t \<and>
           GameID_GameNumber g = Inr n \<and>
           sint y * 1000000 + sint t * 10000 + sint n = sint g \<and>
           1000 \<le> sint y \<and> sint y \<le> 9999 \<and> 0 \<le> sint t \<and> sint t < 100 \<and>
           0 \<le> sint n \<and> sint n < 10000 \<and>
           (GameType_IsValid t \<longrightarrow> GameID_Validate g = None)"
proof -
  have lo: "1000000000 \<le> sint g" and hi: "sint g \<le> 9999999999"
    using assms by (simp_all add: word_sle_eq)
  have rng: "\<not> (g <s 1000000000 \<or> 9999999999 <s g)"
    using lo hi by (simp add: word_sless_alt)
  have nn: "0 \<le> sint g" using lo by simp
  have y: "sint (go_div g 1000000) = sint g div 1000000"
    using sint_go_div [of g 1000000] nn by simp
  have d: "sint (go_div g 10000) = sint g div 10000"
    using sint_go_div [of g 10000] nn by simp
  have t: "sint (go_mod (go_div g 10000) 100) = (sint g div 10000) mod 100"
    using sint_go_mod [of "go_div g 10000" 100] d nn by simp
  have n: "sint (go_mod g 10000) = sint g mod 10000"
    using sint_go_mod [of g 10000] nn by simp
  have recomb: "sint (go_div g 1000000) * 1000000 + sint (go_mod (go_div g 10000) 100) * 10000
      + sint (go_mod g 10000) = sint g"
  proof -
    define q where "q = sint g div 10000"
    have a: "sint g div 1000000 = q div 100"
      by (simp add: q_def zdiv_zmult2_eq)
    have b: "q div 100 * 100 + q mod 100 = q"
      by simp
    have c: "q * 10000 + sint g mod 10000 = sint g"
      by (simp add: q_def)
    have "q div 100 * 1000000 + q mod 100 * 10000 + sint g mod 10000
        = (q div 100 * 100 + q mod 100) * 10000 + sint g mod 10000"
      by (simp only: distrib_right mult.assoc)
    also have "\<dots> = sint g"
      by (simp only: b c)
    finally show ?thesis
      unfolding y t n a q_def [symmetric] .
  qed
  have ylo: "1000 \<le> sint (go_div g 1000000)"
    unfolding y using lo by (simp add: zdiv_mono1 [of 1000000000 "sint g" 1000000, simplified])
  have yhi: "sint (go_div g 1000000) \<le> 9999"
    unfolding y using hi by (simp add: zdiv_mono1 [of "sint g" 9999999999 1000000, simplified])
  have tr: "0 \<le> sint (go_mod (go_div g 10000) 100)" "sint (go_mod (go_div g 10000) 100) < 100"
    unfolding t by simp_all
  have nr: "0 \<le> sint (go_mod g 10000)" "sint (go_mod g 10000) < 10000"
    unfolding n by simp_all
  have "GameID_Season g = Inr (NewSeason (go_div g 1000000))"
    and "GameID_GameType g = Inr (go_mod (go_div g 10000) 100)"
    and "GameID_GameNumber g = Inr (go_mod g 10000)"
    and "GameType_IsValid (go_mod (go_div g 10000) 100) \<longrightarrow> GameID_Validate g = None"
    using rng
    by (simp_all add: GameID_Season_def GameID_GameType_def GameID_GameNumber_def
        GameID_Validate_def)
  with recomb ylo yhi tr nr show ?thesis
    by blast
qed

text \<open>The statement at the first regular-season game of 2023-2024.\<close>

theorem GameID_decompose_witness:
  "(1000000000 :: int64) \<le>s 2023020001 \<and> (2023020001 :: int64) \<le>s 9999999999 \<and>
   GameID_Season 2023020001 = Inr (NewSeason 2023) \<and>
   GameID_GameType 2023020001 = Inr 2 \<and>
   GameID_GameNumber 2023020001 = Inr 1 \<and>
   GameID_Validate 2023020001 = None \<and>
   (\<exists>y t n. GameID_Season 2023020001 = Inr (NewSeason y) \<and> GameID_GameType 2023020001 = Inr t \<and>
           GameID_GameNumber 2023020001 = Inr n \<and>
           sint y * 1000000 + sint t * 10000 + sint n = sint (2023020001 :: int64))"
proof -
  have a: "(1000000000 :: int64) \<le>s 2023020001" by simp
  have b: "(2023020001 :: int64) \<le>s 9999999999" by simp
  have v: "GameID_Season 2023020001 = Inr (NewSeason 2023)"
    "GameID_GameType 2023020001 = Inr 2"
    "GameID_GameNumber 2023020001 = Inr 1"
    "GameID_Validate 2023020001 = None"
    by (simp_all add: GameID_Season_def GameID_GameType_def GameID_GameNumber_def
        GameID_Validate_def GameType_IsValid_def go_div_def go_mod_def
        signed_divide_int_def signed_modulo_int_def)
  show ?thesis using a b v GameID_decompose [OF a b] by blast
qed

section \<open>Facts about printing and parsing decimal numbers\<close>

lemma of_char_digit_char: "d < 10 \<Longrightarrow> (of_char (digit_char d) :: nat) = 48 + d"
  by (simp add: digit_char_def)

lemma is_digit_digit_char [simp]: "d < 10 \<Longrightarrow> is_digit (digit_char d)"
  by (simp add: is_digit_def of_char_digit_char)

lemma digit_val_digit_char [simp]: "d < 10 \<Longrightarrow> digit_val (digit_char d) = d"
  by (simp add: digit_val_def of_char_digit_char)

lemma digits_nonempty [simp]: "digits n \<noteq> []"
  by (subst digits.simps) simp

lemma set_digits: "c \<in> set (digits n) \<Longrightarrow> is_digit c"
proof (induction n rule: digits.induct)
  case (1 n)
  show ?case
  proof (cases "n < 10")
    case True
    with "1.prems" show ?thesis
      by (subst (asm) digits.simps) simp
  next
    case False
    with "1.prems" "1.IH" show ?thesis
      by (subst (asm) digits.simps) auto
  qed
qed

lemma parseUint_loop_append:
  "parseUint_loop acc (xs @ ys) =
     (case parseUint_loop acc xs of (m, None) \<Rightarrow> parseUint_loop m ys | (m, Some e) \<Rightarrow> (m, Some e))"
  by (induction xs arbitrary: acc) (simp_all add: Let_def)

lemma parseUint_loop_single:
  assumes "d < 10" "acc * 10 + d \<le> maxUint64"
  shows "parseUint_loop acc [digit_char d] = (acc * 10 + d, None)"
proof -
  have "acc \<le> maxUint64 div 10"
    using assms by (simp add: maxUint64_def)
  then show ?thesis
    using assms by (simp add: Let_def)
qed

lemma parseUint_loop_digits:
  "acc * 10 ^ length (digits n) + n \<le> maxUint64 \<Longrightarrow>
   parseUint_loop acc (digits n) = (acc * 10 ^ length (digits n) + n, None)"
proof (induction n arbitrary: acc rule: digits.induct)
  case (1 n)
  show ?case
  proof (cases "n < 10")
    case True
    then have d: "digits n = [digit_char n]"
      by (subst digits.simps) simp
    with True "1.prems" show ?thesis
      by (simp add: parseUint_loop_single)
  next
    case False
    define L where "L = length (digits (n div 10))"
    have d: "digits n = digits (n div 10) @ [digit_char (n mod 10)]"
      using False by (subst digits.simps) simp
    have len: "length (digits n) = Suc L"
      by (simp add: d L_def)
    have split: "acc * 10 ^ Suc L + n = (acc * 10 ^ L + n div 10) * 10 + n mod 10"
      by (simp add: algebra_simps)
    have bound: "(acc * 10 ^ L + n div 10) * 10 + n mod 10 \<le> maxUint64"
      using "1.prems" unfolding len split .
    have "acc * 10 ^ L + n div 10 \<le> (acc * 10 ^ L + n div 10) * 10 + n mod 10"
      by simp
    with bound have "acc * 10 ^ L + n div 10 \<le> maxUint64"
      by (rule order_trans [rotated])
    then have ih: "parseUint_loop acc (digits (n div 10)) = (acc * 10 ^ L + n div 10, None)"
      using "1.IH" [OF False] unfolding L_def by blast
    have "parseUint_loop acc (digits n) =
        parseUint_loop (acc * 10 ^ L + n div 10) [digit_char (n mod 10)]"
      by (simp add: d parseUint_loop_append ih)
    also have "\<dots> = ((acc * 10 ^ L + n div 10) * 10 + n mod 10, None)"
      using bound by (intro parseUint_loop_single) simp_all
    finally show ?thesis
      unfolding len split .
  qed
qed

lemma ParseUint_digits: "n \<le> maxUint64 \<Longrightarrow> ParseUint (digits n) = (n, None)"
  using parseUint_loop_digits [of 0 n] by (simp add: ParseUint_def)

lemma hd_digits_is_digit: "digits n = c # cs \<Longrightarrow> is_digit c"
  using set_digits [of c n] by simp

lemma is_digit_not_sign: "is_digit c \<Longrightarrow> c \<noteq> CHR ''+'' \<and> c \<noteq> CHR ''-''"
  by (auto simp: is_digit_def)

lemma ParseInt_digits:
  assumes "n < 2 ^ 63"
  shows "ParseInt (digits n) = (of_nat n, None)"
proof -
  obtain c cs where d: "digits n = c # cs"
    using digits_nonempty [of n] by (cases "digits n") auto
  have sign: "c \<noteq> CHR ''+''" "c \<noteq> CHR ''-''"
    using hd_digits_is_digit [OF d] is_digit_not_sign by blast+
  have "n \<le> maxUint64"
    using assms by (simp add: maxUint64_def)
  then have "ParseUint (c # cs) = (n, None)"
    using ParseUint_digits [of n] d by simp
  then show ?thesis
    using assms sign by (simp add: ParseInt_def d)
qed










lemma digit_char_simps:
  "digit_char 0 = CHR ''0''" "digit_char 1 = CHR ''1''" "digit_char 2 = CHR ''2''"
  "digit_char 3 = CHR ''3''" "digit_char 4 = CHR ''4''" "digit_char 5 = CHR ''5''"
  "digit_char 6 = CHR ''6''" "digit_char 7 = CHR ''7''" "digit_char 8 = CHR ''8''"
  "digit_char 9 = CHR ''9''" "digit_char (Suc 0) = CHR ''1''"
  by (simp_all add: digit_char_def char_of_def bit_Suc_0_iff)

lemmas strconv_eval = ParseInt_def ParseUint_def is_digit_def digit_val_def maxUint64_def Let_def

lemmas format_eval = FormatInt_def itoa_def digits.simps digit_char_simps

lemmas situation_eval = GameSituationFromCode_def Atoi_def string_of_byte_def strconv_eval


section \<open>Season: round trips\<close>

lemma length_digits_4:
  assumes "1000 \<le> n" "n < 10000"
  shows "length (digits n) = 4"
proof -
  have "digits n = digits (n div 10) @ [digit_char (n mod 10)]"
    using assms by (subst digits.simps) simp
  moreover have "digits (n div 10) = digits (n div 10 div 10) @ [digit_char (n div 10 mod 10)]"
    using assms by (subst digits.simps) simp
  moreover have "digits (n div 10 div 10)
      = digits (n div 10 div 10 div 10) @ [digit_char (n div 10 div 10 mod 10)]"
    using assms by (subst digits.simps) simp
  moreover have "digits (n div 10 div 10 div 10) = [digit_char (n div 10 div 10 div 10)]"
    using assms by (subst digits.simps) simp
  ultimately show ?thesis
    by simp
qed

lemma ParseInt_two_numbers:
  assumes "a * 10 ^ length (digits b) + b < 2 ^ 63"
  shows "ParseInt (digits a @ digits b) = (of_nat (a * 10 ^ length (digits b) + b), None)"
proof -
  obtain c cs where d: "digits a = c # cs"
    using digits_nonempty [of a] by (cases "digits a") auto
  have sign: "c \<noteq> CHR ''+''" "c \<noteq> CHR ''-''"
    using hd_digits_is_digit [OF d] is_digit_not_sign by blast+
  have le: "a * 10 ^ length (digits b) + b \<le> maxUint64"
    using assms by (simp add: maxUint64_def)
  have "a \<le> a * 10 ^ length (digits b) + b"
    by (simp add: trans_le_add1)
  with le have "0 * 10 ^ length (digits a) + a \<le> maxUint64"
    by simp
  then have "parseUint_loop 0 (digits a) = (a, None)"
    using parseUint_loop_digits [of 0 a] by simp
  then have "parseUint_loop 0 (digits a @ digits b) = (a * 10 ^ length (digits b) + b, None)"
    using parseUint_loop_digits [OF le] by (simp add: parseUint_loop_append)
  then have "ParseUint (c # cs @ digits b) = (a * 10 ^ length (digits b) + b, None)"
    by (simp add: ParseUint_def d)
  then show ?thesis
    using assms sign by (simp add: ParseInt_def d)
qed

lemma div_mod_base:
  fixes q k r :: nat
  assumes "r < k"
  shows "(q * k + r) div k = q \<and> (q * k + r) mod k = r"
  using assms by simp

lemma sint_of_nat_small:
  assumes "n < 2 ^ 63"
  shows "sint (of_nat n :: int64) = int n"
proof -
  have "signed_take_bit 63 (int n) = int n"
    using assms by (intro signed_take_bit_int_eq_self) simp_all
  then show ?thesis
    by (simp add: signed_of_nat)
qed

text \<open>When both years have four digits, both round trips succeed.\<close>

lemma four_digit_years_round_trip:
  assumes "1000 \<le>s startYear s" and "startYear s \<le>s 9998"
  shows "SeasonFromInt (Season_ToInt s) = Inr s \<and> Parse (Season_ToAPIString s) = Inr s"
proof -
  define w where "w = startYear s"
  define y where "y = nat (sint w)"
  define y1 where "y1 = y + 1"
  have lo: "1000 \<le> sint w" and hi: "sint w \<le> 9998"
    using assms by (simp_all add: w_def word_sle_eq)
  have y: "1000 \<le> y" "y \<le> 9998" "sint w = int y"
    using lo hi by (simp_all add: y_def)
  have y1: "1000 \<le> y1" "y1 < 10000"
    using y by (simp_all add: y1_def)
  have "signed_take_bit 63 (sint w + 1) = sint w + 1"
    using lo hi by (intro signed_take_bit_int_eq_self) simp_all
  then have w1: "sint (w + 1) = int y1"
    using y by (simp add: sint_word_add y1_def)
  have f0: "FormatInt w = digits y"
    using y by (simp add: FormatInt_def itoa_def)
  have f1: "FormatInt (w + 1) = digits y1"
    unfolding FormatInt_def itoa_def w1 by simp
  have api: "Season_ToAPIString s = digits y @ digits y1"
    by (simp add: Season_ToAPIString_def EndYear_def f0 f1 w_def [symmetric])
  have len0: "length (digits y) = 4" and len1: "length (digits y1) = 4"
    using y y1 by (simp_all add: length_digits_4)
  have s_eq: "NewSeason w = s"
    by (simp add: NewSeason_def w_def)
  have "sint (of_nat y :: int64) = sint w"
    using y by (simp add: sint_of_nat_small)
  then have w_eq: "(of_nat y :: int64) = w"
    by (rule signed_word_eqI)
  have w1_eq: "(of_nat y1 :: int64) = w + 1"
    using w_eq by (simp add: y1_def)
  have p0: "Atoi (digits y) = (w, None)"
    using ParseInt_digits [of y] y w_eq by (simp add: Atoi_def)
  have p1: "Atoi (digits y1) = (w + 1, None)"
    using ParseInt_digits [of y1] y1 w1_eq by (simp add: Atoi_def)
  have years: "FromYears w (w + 1) = Inr s"
    by (simp add: FromYears_def Let_def s_eq)
  \<comment> \<open>the integer form\<close>
  define i where "i = y * 10000 + y1"
  have "y * 10 ^ length (digits y1) + y1 < 2 ^ 63"
    unfolding len1 using y y1 by simp
  then have "ParseInt (digits y @ digits y1) = (of_nat (y * 10 ^ length (digits y1) + y1), None)"
    by (rule ParseInt_two_numbers)
  then have "ParseInt (digits y @ digits y1) = (of_nat i, None)"
    unfolding len1 i_def by simp
  then have toint: "Season_ToInt s = of_nat i"
    by (simp only: Season_ToInt_def Atoi_def api fst_conv)
  have si: "sint (of_nat i :: int64) = int i"
    using y y1 by (intro sint_of_nat_small) (simp add: i_def)
  have nn: "0 \<le> sint (of_nat i :: int64)"
    by (simp add: si)
  have "10000000 \<le> int i" and "int i \<le> 99999999"
    using y y1 by (simp_all add: i_def)
  then have rng: "\<not> ((of_nat i :: int64) <s 10000000 \<or> 99999999 <s (of_nat i :: int64))"
    unfolding word_sless_alt si by simp
  have "i div 10000 = y" and "i mod 10000 = y1"
    unfolding i_def using y1(2)
    by (rule div_mod_base [THEN conjunct1], rule div_mod_base [THEN conjunct2])
  then have "int (i div 10000) = int y" and "int (i mod 10000) = int y1"
    by simp_all
  then have "int i div 10000 = int y" and "int i mod 10000 = int y1"
    by (simp_all only: zdiv_int zmod_int of_nat_numeral)
  then have sd: "sint (go_div (of_nat i) 10000) = sint w"
    and sm: "sint (go_mod (of_nat i) 10000) = sint (w + 1)"
    using nn sint_go_div [of "of_nat i" 10000] sint_go_mod [of "of_nat i" 10000] y w1
    by (simp_all add: si)
  have dm: "go_div (of_nat i) 10000 = w" "go_mod (of_nat i) 10000 = w + 1"
    using sd sm by (auto intro: signed_word_eqI)
  have a: "SeasonFromInt (Season_ToInt s) = Inr s"
    using rng by (simp add: SeasonFromInt_def toint Let_def dm years)
  \<comment> \<open>the string form\<close>
  have nodash: "\<not> Contains (digits y @ digits y1) CHR ''-''"
    using set_digits is_digit_not_sign by (auto simp: Contains_def)
  have b: "Parse (Season_ToAPIString s) = Inr s"
    using nodash by (simp add: Parse_def api len0 len1 p0 p1 years)
  from a b show ?thesis ..
qed

text \<open>
  Conversely, a Season that either function returns, or whose wire text \<open>Parse\<close>
  accepts, has four-digit years: \<open>SeasonFromInt\<close> takes the years from an 8-digit
  integer, and \<open>Parse\<close> without a dash demands 8 characters, while the text of a
  negative start year, and of the largest \<open>int\<close>, whose end year wraps around to the
  smallest, has a dash in a place where \<open>Parse\<close> fails.
\<close>

lemma SeasonFromInt_range:
  assumes "SeasonFromInt i = Inr s"
  shows "1000 \<le>s startYear s \<and> startYear s \<le>s 9998"
proof -
  define q where "q = go_div i 10000"
  define r where "r = go_mod i 10000"
  have rng: "\<not> (i <s 10000000 \<or> 99999999 <s i)"
    using assms by (auto simp: SeasonFromInt_def split: if_splits)
  then have lo: "10000000 \<le> sint i" and hi: "sint i \<le> 99999999"
    by (simp_all add: word_sless_alt)
  have "FromYears q r = Inr s"
    using assms rng by (simp add: SeasonFromInt_def Let_def q_def r_def)
  then have e: "r = q + 1" and s: "s = NewSeason q"
    by (auto simp: FromYears_def Let_def split: if_splits)
  have d: "sint q = sint i div 10000"
    using sint_go_div [of i 10000] lo by (simp add: q_def)
  have m: "sint r = sint i mod 10000"
    using sint_go_mod [of i 10000] lo by (simp add: r_def)
  have q_lo: "1000 \<le> sint q" and q_hi: "sint q \<le> 9999"
    using lo hi unfolding d by simp_all
  have "signed_take_bit 63 (sint q + 1) = sint q + 1"
    using q_lo q_hi by (intro signed_take_bit_int_eq_self) simp_all
  then have "sint (q + 1) = sint q + 1"
    by (simp add: sint_word_add)
  then have "sint q + 1 = sint i mod 10000"
    using e m by simp
  moreover have "sint i mod 10000 < 10000"
    by simp
  ultimately have "sint q \<le> 9998"
    by linarith
  with q_lo show ?thesis
    by (simp add: s NewSeason_def word_sle_eq)
qed

lemma length_digits_le:
  "0 < k \<Longrightarrow> length (digits n) \<le> k \<longleftrightarrow> n < 10 ^ k"
proof (induction n arbitrary: k rule: digits.induct)
  case (1 n)
  obtain j where k: "k = Suc j"
    using "1.prems" by (cases k) auto
  show ?case
  proof (cases "n < 10")
    case True
    then have "digits n = [digit_char n]"
      by (subst digits.simps) simp
    then have "length (digits n) \<le> k"
      by (simp add: k)
    moreover have "(10::nat) ^ 1 \<le> 10 ^ k"
      by (rule power_increasing) (simp_all add: k)
    then have "n < 10 ^ k"
      using True by simp
    ultimately show ?thesis
      by simp
  next
    case False
    have d: "digits n = digits (n div 10) @ [digit_char (n mod 10)]"
      using False by (subst digits.simps) simp
    show ?thesis
    proof (cases j)
      case 0
      have "length (digits (n div 10)) \<noteq> 0"
        by simp
      then show ?thesis
        using False by (simp add: d k 0)
    next
      case (Suc j')
      have "length (digits (n div 10)) \<le> j \<longleftrightarrow> n div 10 < 10 ^ j"
        using "1.IH" [OF False, of j] Suc by simp
      moreover have "n div 10 < 10 ^ j \<longleftrightarrow> n < 10 ^ j * 10"
        by (rule div_less_iff_less_mult) simp
      ultimately show ?thesis
        by (simp add: d k mult.commute)
    qed
  qed
qed

lemma Parse_leading_dash: "\<exists>e. Parse (CHR ''-'' # rest) = Inl e"
  by (simp add: Parse_def Contains_def Let_def Atoi_def ParseInt_def)

lemma FormatInt_negative:
  assumes "sint w < 0"
  shows "FormatInt w = CHR ''-'' # digits (nat (- sint w))"
  using assms by (simp add: FormatInt_def itoa_def)

lemma Parse_max_year:
  "\<exists>e. Parse (Season_ToAPIString \<lparr>startYear = 9223372036854775807\<rparr>) = Inl e"
  by (simp add: Season_ToAPIString_def EndYear_def Parse_def Contains_def Atoi_def
      format_eval strconv_eval)

lemma Parse_ToAPIString_range:
  assumes "Parse (Season_ToAPIString s) = Inr t"
  shows "1000 \<le>s startYear s \<and> startYear s \<le>s 9998"
proof -
  define w where "w = startYear s"
  have api: "Season_ToAPIString s = FormatInt w @ FormatInt (w + 1)"
    by (simp add: Season_ToAPIString_def EndYear_def w_def)
  have nonneg: "0 \<le> sint w"
  proof (rule ccontr)
    assume "\<not> 0 \<le> sint w"
    then have "Season_ToAPIString s = CHR ''-'' # (digits (nat (- sint w)) @ FormatInt (w + 1))"
      by (simp add: api FormatInt_negative)
    then show False
      using Parse_leading_dash assms by (metis Inl_Inr_False)
  qed
  have nomax: "sint w \<noteq> 9223372036854775807"
  proof
    assume "sint w = 9223372036854775807"
    then have "sint w = sint (9223372036854775807 :: int64)"
      by simp
    then have "w = 9223372036854775807"
      by (rule signed_word_eqI)
    then have "s = \<lparr>startYear = 9223372036854775807\<rparr>"
      by (simp add: w_def)
    then show False
      using Parse_max_year assms by (metis Inl_Inr_False)
  qed
  define y where "y = nat (sint w)"
  define y1 where "y1 = y + 1"
  have lt: "sint w < 2 ^ 63"
    using sint_lt [of w] by simp
  have y: "sint w = int y"
    using nonneg by (simp add: y_def)
  have "signed_take_bit 63 (sint w + 1) = sint w + 1"
    using nonneg nomax lt by (intro signed_take_bit_int_eq_self) simp_all
  then have w1: "sint (w + 1) = int y1"
    using y by (simp add: sint_word_add y1_def)
  have f0: "FormatInt w = digits y"
    using y by (simp add: FormatInt_def itoa_def)
  have f1: "FormatInt (w + 1) = digits y1"
    unfolding FormatInt_def itoa_def w1 by simp
  have api': "Season_ToAPIString s = digits y @ digits y1"
    by (simp add: api f0 f1)
  have nodash: "\<not> Contains (digits y @ digits y1) CHR ''-''"
    using set_digits is_digit_not_sign by (auto simp: Contains_def)
  have len: "length (digits y) + length (digits y1) = 8"
  proof (rule ccontr)
    assume "length (digits y) + length (digits y1) \<noteq> 8"
    then have "Parse (digits y @ digits y1) = Inl (InvalidSeasonFormat (digits y @ digits y1))"
      using nodash by (simp add: Parse_def)
    then show False
      using assms by (simp add: api')
  qed
  have lo: "1000 \<le> y"
  proof (rule ccontr)
    assume "\<not> 1000 \<le> y"
    then have "y < 10 ^ 3" and "y1 < 10 ^ 4"
      by (simp_all add: y1_def)
    then have "length (digits y) \<le> 3" and "length (digits y1) \<le> 4"
      by (simp_all add: length_digits_le)
    with len show False
      by simp
  qed
  have hi: "y \<le> 9998"
  proof (rule ccontr)
    assume "\<not> y \<le> 9998"
    then have "\<not> y < 10 ^ 3" and "\<not> y1 < 10 ^ 4"
      by (simp_all add: y1_def)
    then have "\<not> length (digits y) \<le> 3" and "\<not> length (digits y1) \<le> 4"
      by (simp_all add: length_digits_le)
    with len show False
      by simp
  qed
  from lo hi show ?thesis
    by (simp add: w_def [symmetric] word_sle_eq y)
qed

text \<open>
  Claim C2, amended. For every Season whose start year lies between 1000 and 9998 (so
  that both years have four digits), \<open>SeasonFromInt (ToInt s)\<close> and
  \<open>Parse (ToAPIString s)\<close> succeed and return \<open>s\<close>. For every other Season
  neither of the two returns \<open>s\<close>.
\<close>

theorem Season_round_trip:
  "(1000 \<le>s startYear s \<and> startYear s \<le>s 9998 \<longrightarrow>
      SeasonFromInt (Season_ToInt s) = Inr s \<and> Parse (Season_ToAPIString s) = Inr s) \<and>
   (\<not> (1000 \<le>s startYear s \<and> startYear s \<le>s 9998) \<longrightarrow>
      SeasonFromInt (Season_ToInt s) \<noteq> Inr s \<and> Parse (Season_ToAPIString s) \<noteq> Inr s)"
  using four_digit_years_round_trip [of s] SeasonFromInt_range [of "Season_ToInt s" s]
    Parse_ToAPIString_range [of s s]
  by blast

text \<open>
  The statement at the season 2023-2024, and at the start year 99.
\<close>

theorem Season_round_trip_witness:
  "(1000 :: int64) \<le>s 2023 \<and> (2023 :: int64) \<le>s 9998 \<and>
   Season_ToInt (NewSeason 2023) = 20232024 \<and>
   Season_ToAPIString (NewSeason 2023) = ''20232024'' \<and>
   SeasonFromInt 20232024 = Inr (NewSeason 2023) \<and>
   Parse ''20232024'' = Inr (NewSeason 2023) \<and>
   \<not> (1000 :: int64) \<le>s 99 \<and>
   SeasonFromInt (Season_ToInt (NewSeason 99)) \<noteq> Inr (NewSeason 99) \<and>
   Parse (Season_ToAPIString (NewSeason 99)) \<noteq> Inr (NewSeason 99)"
proof -
  have a: "(1000 :: int64) \<le>s startYear (NewSeason 2023)"
    and b: "startYear (NewSeason 2023) \<le>s 9998"
    and n: "\<not> (1000 :: int64) \<le>s startYear (NewSeason 99)"
    by (simp_all add: NewSeason_def)
  have d: "Season_ToAPIString (NewSeason 2023) = ''20232024''"
    by (simp add: Season_ToAPIString_def NewSeason_def EndYear_def format_eval)
  have c: "Season_ToInt (NewSeason 2023) = 20232024"
    by (simp add: Season_ToInt_def d Atoi_def strconv_eval)
  show ?thesis
    using a b n c d Season_round_trip [of "NewSeason 2023"] Season_round_trip [of "NewSeason 99"]
    by (simp add: NewSeason_def)
qed

text \<open>
  Claim C2, as stated, fails for a Season that \<open>NewSeason\<close> accepts but whose years do
  not both have four digits. For the start year 999 the wire text has 7 characters, for
  9999 it has 9; in both cases \<open>SeasonFromInt\<close> and \<open>Parse\<close> reject what \<open>ToInt\<close>
  and \<open>ToAPIString\<close> produce.
\<close>

theorem Season_round_trip_fails:
  "Season_ToAPIString (NewSeason 999) = ''9991000'' \<and>
   Season_ToInt (NewSeason 999) = 9991000 \<and>
   SeasonFromInt (Season_ToInt (NewSeason 999)) = Inl (InvalidSeasonInteger 9991000) \<and>
   Parse (Season_ToAPIString (NewSeason 999)) = Inl (InvalidSeasonFormat ''9991000'') \<and>
   Season_ToAPIString (NewSeason 9999) = ''999910000'' \<and>
   Season_ToInt (NewSeason 9999) = 999910000 \<and>
   SeasonFromInt (Season_ToInt (NewSeason 9999)) = Inl (InvalidSeasonInteger 999910000) \<and>
   Parse (Season_ToAPIString (NewSeason 9999)) = Inl (InvalidSeasonFormat ''999910000'')"
  by (simp add: Season_ToAPIString_def Season_ToInt_def NewSeason_def EndYear_def
      SeasonFromInt_def Parse_def Contains_def Atoi_def format_eval strconv_eval)

section \<open>GameID: parsing\<close>







section \<open>GameSituation: parsing and strength label\<close>

text \<open>
  \<open>Atoi\<close> of the one-byte conversion succeeds exactly on a decimal digit.
\<close>

lemma Atoi_string_of_byte:
  "Atoi (string_of_byte b) =
     (if is_digit b then (of_nat (digit_val b), None) else (0, Some ErrSyntax))"
proof (cases "(of_char b :: nat) < 128")
  case True
  then have s: "string_of_byte b = [b]"
    by (simp add: string_of_byte_def)
  show ?thesis
  proof (cases "is_digit b")
    case True
    then have "digit_val b < 10"
      by (auto simp: is_digit_def digit_val_def)
    then have "digit_val b \<le> maxUint64" "\<not> (2 ^ 63 \<le> digit_val b)"
      by (simp_all add: maxUint64_def)
    with True is_digit_not_sign [OF True] show ?thesis
      by (simp add: s Atoi_def ParseInt_def ParseUint_def Let_def maxUint64_def)
  next
    case False
    then show ?thesis
      by (simp add: s Atoi_def ParseInt_def ParseUint_def Let_def)
  qed
next
  case False
  define n where "n = (of_char b :: nat)"
  have n: "128 \<le> n" "n < 256"
    using False by (simp_all add: n_def)
  define c where "c = char_of (192 + n div 64)"
  have "(of_char c :: nat) = 192 + n div 64"
    using n by (simp add: c_def)
  then have c: "\<not> is_digit c" "c \<noteq> CHR ''+''" "c \<noteq> CHR ''-''"
    by (auto simp: is_digit_def)
  have s: "string_of_byte b = [c, char_of (128 + n mod 64)]"
    using False by (simp add: string_of_byte_def Let_def n_def c_def)
  have "\<not> is_digit b"
    using False by (simp add: is_digit_def)
  then show ?thesis
    using c by (simp add: s Atoi_def ParseInt_def ParseUint_def Let_def)
qed

text \<open>
  Claim C5. \<open>GameSituationFromCode\<close> returns a situation if and only if the code has
  exactly 4 bytes and the bytes at index 1 and 2 are decimal digits; then the skater
  counts are the values of those digits and each goalie flag is true exactly when the
  byte at index 0 (respectively 3) is the character 1. Any other byte at a goalie
  position gives goalie-absent and the code is still accepted, as ''x55?'' shows.
\<close>

theorem GameSituationFromCode_spec:
  "(GameSituationFromCode code \<noteq> None \<longleftrightarrow>
      length code = 4 \<and> is_digit (code ! 1) \<and> is_digit (code ! 2)) \<and>
   (\<forall>r. GameSituationFromCode code = Some r \<longrightarrow>
      AwaySkaters r = of_nat (digit_val (code ! 1)) \<and>
      HomeSkaters r = of_nat (digit_val (code ! 2)) \<and>
      AwayGoalieIn r = (code ! 0 = CHR ''1'') \<and>
      HomeGoalieIn r = (code ! 3 = CHR ''1'')) \<and>
   GameSituationFromCode ''x55?'' =
      Some \<lparr>AwaySkaters = 5, AwayGoalieIn = False, HomeSkaters = 5, HomeGoalieIn = False\<rparr> \<and>
   GameSituationFromCode ''1a51'' = None \<and>
   GameSituationFromCode ''15511'' = None"
proof -
  have a: "GameSituationFromCode code \<noteq> None \<longleftrightarrow>
      length code = 4 \<and> is_digit (code ! 1) \<and> is_digit (code ! 2)"
    by (simp add: GameSituationFromCode_def Atoi_string_of_byte Let_def)
  have b: "\<forall>r. GameSituationFromCode code = Some r \<longrightarrow>
      AwaySkaters r = of_nat (digit_val (code ! 1)) \<and>
      HomeSkaters r = of_nat (digit_val (code ! 2)) \<and>
      AwayGoalieIn r = (code ! 0 = CHR ''1'') \<and>
      HomeGoalieIn r = (code ! 3 = CHR ''1'')"
    by (auto simp: GameSituationFromCode_def Atoi_string_of_byte Let_def split: if_splits)
  have c: "GameSituationFromCode ''x55?'' =
      Some \<lparr>AwaySkaters = 5, AwayGoalieIn = False, HomeSkaters = 5, HomeGoalieIn = False\<rparr>"
    by (simp add: situation_eval)
  have d: "GameSituationFromCode ''1a51'' = None"
    by (simp add: situation_eval)
  have e: "GameSituationFromCode ''15511'' = None"
    by (simp add: situation_eval)
  from a b c d e show ?thesis
    by blast
qed

text \<open>
  The statement at the code ''0641''.
\<close>

theorem GameSituationFromCode_spec_witness:
  "GameSituationFromCode ''0641'' =
     Some \<lparr>AwaySkaters = 6, AwayGoalieIn = False, HomeSkaters = 4, HomeGoalieIn = True\<rparr> \<and>
   length ''0641'' = 4 \<and> is_digit (''0641'' ! 1) \<and> is_digit (''0641'' ! 2) \<and>
   digit_val (''0641'' ! 1) = 6 \<and> digit_val (''0641'' ! 2) = 4"
proof -
  have v: "GameSituationFromCode ''0641'' =
     Some \<lparr>AwaySkaters = 6, AwayGoalieIn = False, HomeSkaters = 4, HomeGoalieIn = True\<rparr>"
    by (simp add: situation_eval)
  have d: "digit_val (''0641'' ! 1) = 6" "digit_val (''0641'' ! 2) = 4"
    by (simp_all add: digit_val_def)
  show ?thesis
    using v d GameSituationFromCode_spec [of "''0641''"] by simp
qed

text \<open>
  Claim C6. \<open>StrengthDescription\<close> returns the two skater counts in decimal joined by
  the letter v, followed by \<open>EN\<close> after a space whenever a goalie is absent (whatever
  the counts), otherwise by \<open>PP\<close> after a space when the counts differ, otherwise by
  nothing. The codes ''1551'', ''0651'' and ''0641'' give ''5v5'', ''6v5 EN'' and
  ''6v4 EN''.
\<close>

theorem StrengthDescription_spec:
  "(\<not> AwayGoalieIn g \<or> \<not> HomeGoalieIn g \<longrightarrow>
      StrengthDescription g =
        FormatInt (AwaySkaters g) @ ''v'' @ FormatInt (HomeSkaters g) @ '' EN'') \<and>
   (AwayGoalieIn g \<and> HomeGoalieIn g \<and> AwaySkaters g \<noteq> HomeSkaters g \<longrightarrow>
      StrengthDescription g =
        FormatInt (AwaySkaters g) @ ''v'' @ FormatInt (HomeSkaters g) @ '' PP'') \<and>
   (AwayGoalieIn g \<and> HomeGoalieIn g \<and> AwaySkaters g = HomeSkaters g \<longrightarrow>
      StrengthDescription g = FormatInt (AwaySkaters g) @ ''v'' @ FormatInt (HomeSkaters g)) \<and>
   map_option StrengthDescription (GameSituationFromCode ''1551'') = Some ''5v5'' \<and>
   map_option StrengthDescription (GameSituationFromCode ''0651'') = Some ''6v5 EN'' \<and>
   map_option StrengthDescription (GameSituationFromCode ''0641'') = Some ''6v4 EN''"
proof -
  have a: "\<not> AwayGoalieIn g \<or> \<not> HomeGoalieIn g \<longrightarrow>
      StrengthDescription g =
        FormatInt (AwaySkaters g) @ ''v'' @ FormatInt (HomeSkaters g) @ '' EN''"
    by (simp add: StrengthDescription_def Let_def)
  have b: "AwayGoalieIn g \<and> HomeGoalieIn g \<and> AwaySkaters g \<noteq> HomeSkaters g \<longrightarrow>
      StrengthDescription g =
        FormatInt (AwaySkaters g) @ ''v'' @ FormatInt (HomeSkaters g) @ '' PP''"
    by (simp add: StrengthDescription_def Let_def)
  have c: "AwayGoalieIn g \<and> HomeGoalieIn g \<and> AwaySkaters g = HomeSkaters g \<longrightarrow>
      StrengthDescription g = FormatInt (AwaySkaters g) @ ''v'' @ FormatInt (HomeSkaters g)"
    by (simp add: StrengthDescription_def Let_def)
  have e1: "map_option StrengthDescription (GameSituationFromCode ''1551'') = Some ''5v5''"
    by (simp add: situation_eval StrengthDescription_def format_eval)
  have e2: "map_option StrengthDescription (GameSituationFromCode ''0651'') = Some ''6v5 EN''"
    by (simp add: situation_eval StrengthDescription_def format_eval)
  have e3: "map_option StrengthDescription (GameSituationFromCode ''0641'') = Some ''6v4 EN''"
    by (simp add: situation_eval StrengthDescription_def format_eval)
  from a b c e1 e2 e3 show ?thesis
    by blast
qed

text \<open>
  The three cases of the statement at concrete situations.
\<close>

theorem StrengthDescription_spec_witness:
  "StrengthDescription \<lparr>AwaySkaters = 6, AwayGoalieIn = False, HomeSkaters = 4, HomeGoalieIn = True\<rparr>
     = ''6v4 EN'' \<and>
   StrengthDescription \<lparr>AwaySkaters = 5, AwayGoalieIn = True, HomeSkaters = 4, HomeGoalieIn = True\<rparr>
     = ''5v4 PP'' \<and>
   StrengthDescription \<lparr>AwaySkaters = 3, AwayGoalieIn = True, HomeSkaters = 3, HomeGoalieIn = True\<rparr>
     = ''3v3''"
proof -
  have f: "FormatInt 6 = ''6''" "FormatInt 5 = ''5''" "FormatInt 4 = ''4''" "FormatInt 3 = ''3''"
    by (simp_all add: format_eval)
  show ?thesis
    using f
      StrengthDescription_spec [of "\<lparr>AwaySkaters = 6, AwayGoalieIn = False, HomeSkaters = 4, HomeGoalieIn = True\<rparr>"]
      StrengthDescription_spec [of "\<lparr>AwaySkaters = 5, AwayGoalieIn = True, HomeSkaters = 4, HomeGoalieIn = True\<rparr>"]
      StrengthDescription_spec [of "\<lparr>AwaySkaters = 3, AwayGoalieIn = True, HomeSkaters = 3, HomeGoalieIn = True\<rparr>"]
    by simp
qed

section \<open>GameDate\<close>

text \<open>
  Claim C9. For every GameDate and every number of days, the result of \<open>AddDays\<close> is
  not symbolic: \<open>IsNow\<close> is false. A symbolic instance is resolved to the current
  instant first, a concrete one keeps its date, and the days are added to that.
\<close>

theorem AddDays_is_concrete:
  "IsNow (AddDays clock addDate gd n) = False \<and>
   (IsNow gd \<longrightarrow> date (AddDays clock addDate gd n) = addDate clock 0 0 n) \<and>
   (\<not> IsNow gd \<longrightarrow> date (AddDays clock addDate gd n) = addDate (date gd) 0 0 n)"
  by (simp add: AddDays_def FromDate_def IsNow_def Date_def Let_def)

text \<open>
  The statement with instants counted in days: from the symbolic date at day 19000 and
  from the concrete day 18000.
\<close>

theorem AddDays_is_concrete_witness:
  "IsNow (Now (0 :: int)) \<and>
   IsNow (AddDays (19000 :: int) (\<lambda>d y m k. d + sint k) (Now 0) 3) = False \<and>
   date (AddDays (19000 :: int) (\<lambda>d y m k. d + sint k) (Now 0) 3) = 19003 \<and>
   \<not> IsNow (FromDate (18000 :: int)) \<and>
   date (AddDays (19000 :: int) (\<lambda>d y m k. d + sint k) (FromDate 18000) 3) = 18003"
proof -
  have a: "IsNow (Now (0 :: int))" and b: "\<not> IsNow (FromDate (18000 :: int))"
    by (simp_all add: IsNow_def Now_def FromDate_def)
  have c: "date (FromDate (18000 :: int)) = 18000"
    by (simp add: FromDate_def)
  show ?thesis
    using a b c
      AddDays_is_concrete [of "19000 :: int" "\<lambda>d y m k. d + sint k" "Now 0" 3]
      AddDays_is_concrete [of "19000 :: int" "\<lambda>d y m k. d + sint k" "FromDate 18000" 3]
    by simp
qed

section \<open>Serializing the enumerated code types\<close>

lemmas enum_consts =
  PositionCenter_def PositionLeftWing_def PositionRightWing_def PositionDefense_def
  PositionGoalie_def HandednessLeft_def HandednessRight_def
  GoalieDecisionWin_def GoalieDecisionLoss_def GoalieDecisionTie_def
  GoalieDecisionOvertimeLoss_def
  PeriodTypeRegulation_def PeriodTypeOvertime_def PeriodTypeShootout_def
  HomeRoadHome_def HomeRoadRoad_def
  ZoneCodeOffensive_def ZoneCodeDefensive_def ZoneCodeNeutral_def
  DefendingSideLeft_def DefendingSideRight_def
  GameScheduleStateOK_def GameScheduleStateDontPlay_def GameScheduleStatePostponed_def
  GameScheduleStateSuspended_def GameScheduleStateTBD_def GameScheduleStateCompleted_def
  GameScheduleStateCancelled_def
  PlayEventTypeGameStart_def PlayEventTypePeriodStart_def PlayEventTypePeriodEnd_def
  PlayEventTypeGameEnd_def PlayEventTypeFaceoff_def PlayEventTypeHit_def
  PlayEventTypeGiveaway_def PlayEventTypeTakeaway_def PlayEventTypeShotOnGoal_def
  PlayEventTypeMissedShot_def PlayEventTypeBlockedShot_def PlayEventTypeGoal_def
  PlayEventTypePenalty_def PlayEventTypeStoppage_def PlayEventTypeDelayedPenalty_def
  PlayEventTypeFailedShotAttempt_def PlayEventTypeShootoutComplete_def
  PlayEventTypeUnknown_def

text \<open>
  Claim C4, as stated, fails for Handedness: a non-empty value outside the known
  constants is serialized as it is, without an error.
\<close>

theorem Handedness_MarshalJSON_invalid_value:
  "\<not> Handedness_IsValid ''INVALID'' \<and> ''INVALID'' \<noteq> '''' \<and>
   Handedness_MarshalJSON ''INVALID'' = Inr (JString ''INVALID'')"
  by (simp add: Handedness_IsValid_def Handedness_MarshalJSON_def Marshal_string_def enum_consts)

lemma lead_size_le: "lead_size b \<le> 4"
  by (simp add: lead_size_def)

lemma DecodeRuneInString_take:
  "DecodeRuneInString (take 4 s) = DecodeRuneInString s"
proof -
  have n1: "length (take 4 s) < 1 \<longleftrightarrow> length s < 1"
    by (cases s) simp_all
  have n2: "length (take 4 s) < lead_size b \<longleftrightarrow> length s < lead_size b" for b
    using lead_size_le [of b] by (simp add: min_def)
  have i: "take 4 s ! 0 = s ! 0" "take 4 s ! 1 = s ! 1" "take 4 s ! 2 = s ! 2"
    "take 4 s ! 3 = s ! 3"
    by simp_all
  show ?thesis
    unfolding DecodeRuneInString_def Let_def n1 n2 i ..
qed

lemma appendString_valid: "ValidString s \<Longrightarrow> appendString s = s"
proof (induction s rule: ValidString.induct)
  case 1
  show ?case
    by simp
next
  case (2 b bs)
  obtain c sz where d: "DecodeRuneInString (b # bs) = (c, sz)"
    by (cases "DecodeRuneInString (b # bs)")
  have d4: "DecodeRuneInString (take 4 (b # bs)) = (c, sz)"
    using d by (simp only: DecodeRuneInString_take)
  have ok: "\<not> (c = RuneError \<and> sz = 1)" and rest: "ValidString (drop sz (b # bs))"
    using "2.prems" by (simp_all add: d)
  have ih: "appendString (drop sz (b # bs)) = drop sz (b # bs)"
    using "2.IH" [OF d [symmetric] refl rest] .
  show ?case
  proof (cases "(of_char b :: nat) < 0x80")
    case True
    then have "DecodeRuneInString (b # bs) = (of_char b, 1)"
      by (simp add: DecodeRuneInString_def lead_size_def Let_def split: prod.split)
    then have "sz = 1"
      using d by simp
    then show ?thesis
      using True ih by simp
  next
    case False
    have "appendString (b # bs) = take sz (b # bs) @ appendString (drop sz (b # bs))"
      using False ok by (simp only: appendString.simps d4 Let_def prod.case if_False)
    then show ?thesis
      by (simp only: ih append_take_drop_id)
  qed
qed

lemmas utf8_eval = DecodeRuneInString_def lead_size_def accept_range_def RuneError_def Let_def

text \<open>
  The model of the encoder on a byte that starts no encoding, on a truncated encoding,
  on an encoded surrogate, and on the well-formed encodings of \<open>U+00E9\<close>, of
  \<open>U+FFFD\<close> itself and of \<open>U+1F600\<close>.
\<close>

lemma appendString_examples:
  "appendString [CHR 0xFF] = [CHR 0xEF, CHR 0xBF, CHR 0xBD]"
  "appendString [CHR 0xC3, CHR 0xA9, CHR 0xC3] = [CHR 0xC3, CHR 0xA9, CHR 0xEF, CHR 0xBF, CHR 0xBD]"
  "appendString [CHR 0xED, CHR 0xA0, CHR 0x80]
     = [CHR 0xEF, CHR 0xBF, CHR 0xBD, CHR 0xEF, CHR 0xBF, CHR 0xBD, CHR 0xEF, CHR 0xBF, CHR 0xBD]"
  "appendString [CHR 0xC3, CHR 0xA9] = [CHR 0xC3, CHR 0xA9]"
  "appendString [CHR 0xEF, CHR 0xBF, CHR 0xBD] = [CHR 0xEF, CHR 0xBF, CHR 0xBD]"
  "appendString [CHR 0xF0, CHR 0x9F, CHR 0x98, CHR 0x80] = [CHR 0xF0, CHR 0x9F, CHR 0x98, CHR 0x80]"
  "DecodeRuneInString [CHR 0xF0, CHR 0x9F, CHR 0x98, CHR 0x80] = (0x1F600, 4)"
  by (simp_all add: utf8_eval)

text \<open>
  Claim C4, amended. Handedness serializes every value, known or not, without an error,
  as the JSON string that \<open>json.Marshal\<close> makes of it: the value itself when it is
  valid UTF-8, so the empty Handedness gives the empty JSON string, and otherwise the
  value with \<open>U+FFFD\<close> in place of each byte that belongs to no well-formed encoding
  (the byte \<open>FF\<close> alone gives the string \<open>U+FFFD\<close>). The empty DefendingSide gives
  the empty JSON string as well. A non-empty DefendingSide outside
  its constants, and any value, empty or not, outside the constants of Position,
  GoalieDecision, PeriodType, HomeRoad, ZoneCode, GameScheduleState, PlayEventType and
  GameType, returns an error.
\<close>

theorem MarshalJSON_validation:
  "Handedness_MarshalJSON v = Inr (JString (appendString v)) \<and>
   (ValidString v \<longrightarrow> Handedness_MarshalJSON v = Inr (JString v)) \<and>
   Handedness_MarshalJSON '''' = Inr (JString '''') \<and>
   Handedness_MarshalJSON [CHR 0xFF] = Inr (JString [CHR 0xEF, CHR 0xBF, CHR 0xBD]) \<and>
   DefendingSide_MarshalJSON '''' = Inr (JString '''') \<and>
   (v \<noteq> '''' \<and> v \<notin> {''left'', ''right''} \<longrightarrow>
      DefendingSide_MarshalJSON v = Inl (CannotMarshalInvalidDefendingSide v)) \<and>
   (v \<notin> {''C'', ''LW'', ''RW'', ''D'', ''G''} \<longrightarrow>
      Position_MarshalJSON v = Inl (CannotMarshalInvalidPosition v)) \<and>
   (v \<notin> {''W'', ''L'', ''T'', ''OTL''} \<longrightarrow>
      GoalieDecision_MarshalJSON v = Inl (CannotMarshalInvalidGoalieDecision v)) \<and>
   (v \<notin> {''REG'', ''OT'', ''SO''} \<longrightarrow>
      PeriodType_MarshalJSON v = Inl (CannotMarshalInvalidPeriodType v)) \<and>
   (v \<notin> {''H'', ''R''} \<longrightarrow>
      HomeRoad_MarshalJSON v = Inl (CannotMarshalInvalidHomeRoad v)) \<and>
   (v \<notin> {''O'', ''D'', ''N''} \<longrightarrow>
      ZoneCode_MarshalJSON v = Inl (CannotMarshalInvalidZoneCode v)) \<and>
   (v \<notin> {''OK'', ''DONT_PLAY'', ''PPD'', ''SUSP'', ''TBD'', ''COMPLETED'', ''CNCL''} \<longrightarrow>
      GameScheduleState_MarshalJSON v = Inl (CannotMarshalInvalidGameScheduleState v)) \<and>
   (v \<notin> {''game-start'', ''period-start'', ''period-end'', ''game-end'', ''faceoff'', ''hit'',
          ''giveaway'', ''takeaway'', ''shot-on-goal'', ''missed-shot'', ''blocked-shot'',
          ''goal'', ''penalty'', ''stoppage'', ''delayed-penalty'', ''failed-shot-attempt'',
          ''shootout-complete'', ''unknown''} \<longrightarrow>
      PlayEventType_MarshalJSON v = Inl (CannotMarshalInvalidPlayEventType v)) \<and>
   (t \<notin> {1, 2, 3, 4, 9, 10, 12, 19, 20} \<longrightarrow>
      GameType_MarshalJSON t = Inl (CannotMarshalInvalidGameType t)) \<and>
   Position_MarshalJSON '''' = Inl (CannotMarshalInvalidPosition '''') \<and>
   GoalieDecision_MarshalJSON '''' = Inl (CannotMarshalInvalidGoalieDecision '''') \<and>
   PeriodType_MarshalJSON '''' = Inl (CannotMarshalInvalidPeriodType '''') \<and>
   HomeRoad_MarshalJSON '''' = Inl (CannotMarshalInvalidHomeRoad '''') \<and>
   ZoneCode_MarshalJSON '''' = Inl (CannotMarshalInvalidZoneCode '''') \<and>
   GameScheduleState_MarshalJSON '''' = Inl (CannotMarshalInvalidGameScheduleState '''') \<and>
   PlayEventType_MarshalJSON '''' = Inl (CannotMarshalInvalidPlayEventType '''')"
proof -
  have h: "Handedness_MarshalJSON v = Inr (JString (appendString v))"
    by (simp add: Handedness_MarshalJSON_def Marshal_string_def)
  have hv: "ValidString v \<longrightarrow> Handedness_MarshalJSON v = Inr (JString v)"
    by (simp add: Handedness_MarshalJSON_def Marshal_string_def appendString_valid)
  have h0: "Handedness_MarshalJSON '''' = Inr (JString '''')"
    by (simp add: Handedness_MarshalJSON_def Marshal_string_def)
  have hf: "Handedness_MarshalJSON [CHR 0xFF] = Inr (JString [CHR 0xEF, CHR 0xBF, CHR 0xBD])"
    by (simp add: Handedness_MarshalJSON_def Marshal_string_def utf8_eval)
  have d0: "DefendingSide_MarshalJSON '''' = Inr (JString '''')"
    by (simp add: DefendingSide_MarshalJSON_def Marshal_string_def)
  have d: "v \<noteq> '''' \<and> v \<notin> {''left'', ''right''} \<longrightarrow>
      DefendingSide_MarshalJSON v = Inl (CannotMarshalInvalidDefendingSide v)"
    by (simp add: DefendingSide_MarshalJSON_def DefendingSide_IsValid_def enum_consts)
  have p: "v \<notin> {''C'', ''LW'', ''RW'', ''D'', ''G''} \<longrightarrow>
      Position_MarshalJSON v = Inl (CannotMarshalInvalidPosition v)"
    by (simp add: Position_MarshalJSON_def Position_IsValid_def enum_consts)
  have g: "v \<notin> {''W'', ''L'', ''T'', ''OTL''} \<longrightarrow>
      GoalieDecision_MarshalJSON v = Inl (CannotMarshalInvalidGoalieDecision v)"
    by (simp add: GoalieDecision_MarshalJSON_def GoalieDecision_IsValid_def enum_consts)
  have pt: "v \<notin> {''REG'', ''OT'', ''SO''} \<longrightarrow>
      PeriodType_MarshalJSON v = Inl (CannotMarshalInvalidPeriodType v)"
    by (simp add: PeriodType_MarshalJSON_def PeriodType_IsValid_def enum_consts)
  have hr: "v \<notin> {''H'', ''R''} \<longrightarrow>
      HomeRoad_MarshalJSON v = Inl (CannotMarshalInvalidHomeRoad v)"
    by (simp add: HomeRoad_MarshalJSON_def HomeRoad_IsValid_def enum_consts)
  have z: "v \<notin> {''O'', ''D'', ''N''} \<longrightarrow>
      ZoneCode_MarshalJSON v = Inl (CannotMarshalInvalidZoneCode v)"
    by (simp add: ZoneCode_MarshalJSON_def ZoneCode_IsValid_def enum_consts)
  have gs: "v \<notin> {''OK'', ''DONT_PLAY'', ''PPD'', ''SUSP'', ''TBD'', ''COMPLETED'', ''CNCL''} \<longrightarrow>
      GameScheduleState_MarshalJSON v = Inl (CannotMarshalInvalidGameScheduleState v)"
    by (simp add: GameScheduleState_MarshalJSON_def GameScheduleState_IsValid_def enum_consts)
  have pe: "v \<notin> {''game-start'', ''period-start'', ''period-end'', ''game-end'', ''faceoff'', ''hit'',
          ''giveaway'', ''takeaway'', ''shot-on-goal'', ''missed-shot'', ''blocked-shot'',
          ''goal'', ''penalty'', ''stoppage'', ''delayed-penalty'', ''failed-shot-attempt'',
          ''shootout-complete'', ''unknown''} \<longrightarrow>
      PlayEventType_MarshalJSON v = Inl (CannotMarshalInvalidPlayEventType v)"
    by (simp add: PlayEventType_MarshalJSON_def PlayEventType_IsValid_def enum_consts)
  have gt: "t \<notin> {1, 2, 3, 4, 9, 10, 12, 19, 20} \<longrightarrow>
      GameType_MarshalJSON t = Inl (CannotMarshalInvalidGameType t)"
    by (simp add: GameType_MarshalJSON_def GameType_IsValid_def)
  have e1: "Position_MarshalJSON '''' = Inl (CannotMarshalInvalidPosition '''')"
    by (simp add: Position_MarshalJSON_def Position_IsValid_def enum_consts)
  have e2: "GoalieDecision_MarshalJSON '''' = Inl (CannotMarshalInvalidGoalieDecision '''')"
    by (simp add: GoalieDecision_MarshalJSON_def GoalieDecision_IsValid_def enum_consts)
  have e3: "PeriodType_MarshalJSON '''' = Inl (CannotMarshalInvalidPeriodType '''')"
    by (simp add: PeriodType_MarshalJSON_def PeriodType_IsValid_def enum_consts)
  have e4: "HomeRoad_MarshalJSON '''' = Inl (CannotMarshalInvalidHomeRoad '''')"
    by (simp add: HomeRoad_MarshalJSON_def HomeRoad_IsValid_def enum_consts)
  have e5: "ZoneCode_MarshalJSON '''' = Inl (CannotMarshalInvalidZoneCode '''')"
    by (simp add: ZoneCode_MarshalJSON_def ZoneCode_IsValid_def enum_consts)
  have e6: "GameScheduleState_MarshalJSON '''' = Inl (CannotMarshalInvalidGameScheduleState '''')"
    by (simp add: GameScheduleState_MarshalJSON_def GameScheduleState_IsValid_def enum_consts)
  have e7: "PlayEventType_MarshalJSON '''' = Inl (CannotMarshalInvalidPlayEventType '''')"
    by (simp add: PlayEventType_MarshalJSON_def PlayEventType_IsValid_def enum_consts)
  show ?thesis
    by (intro conjI h hv h0 hf d0 d p g pt hr z gs pe gt e1 e2 e3 e4 e5 e6 e7)
qed

text \<open>
  The statement at the value ''INVALID'', at the empty value and at the game type 5.
\<close>

theorem MarshalJSON_validation_witness:
  "ValidString ''INVALID'' \<and>
   Handedness_MarshalJSON ''INVALID'' = Inr (JString ''INVALID'') \<and>
   Handedness_MarshalJSON '''' = Inr (JString '''') \<and>
   DefendingSide_MarshalJSON ''INVALID'' = Inl (CannotMarshalInvalidDefendingSide ''INVALID'') \<and>
   Position_MarshalJSON ''INVALID'' = Inl (CannotMarshalInvalidPosition ''INVALID'') \<and>
   GoalieDecision_MarshalJSON ''INVALID'' = Inl (CannotMarshalInvalidGoalieDecision ''INVALID'') \<and>
   PeriodType_MarshalJSON ''INVALID'' = Inl (CannotMarshalInvalidPeriodType ''INVALID'') \<and>
   HomeRoad_MarshalJSON ''INVALID'' = Inl (CannotMarshalInvalidHomeRoad ''INVALID'') \<and>
   ZoneCode_MarshalJSON ''INVALID'' = Inl (CannotMarshalInvalidZoneCode ''INVALID'') \<and>
   GameScheduleState_MarshalJSON ''INVALID''
     = Inl (CannotMarshalInvalidGameScheduleState ''INVALID'') \<and>
   PlayEventType_MarshalJSON ''INVALID'' = Inl (CannotMarshalInvalidPlayEventType ''INVALID'') \<and>
   GameType_MarshalJSON 5 = Inl (CannotMarshalInvalidGameType 5)"
proof -
  have v: "ValidString ''INVALID''"
    by (simp add: utf8_eval)
  show ?thesis
    using v MarshalJSON_validation [of "''INVALID''" 5] by simp
qed

section \<open>Facts about rounding to float64\<close>

lemma pow2_powi: "pow2 e = 2 powi e"
  by (simp add: pow2_def power_int_def inverse_eq_divide power_one_over)

lemma pow2_pos [simp]: "0 < pow2 e"
  by (simp add: pow2_powi)

lemma pow2_diff: "pow2 (a - b) = pow2 a / pow2 b"
  by (simp add: pow2_powi power_int_diff)

lemma pow2_mono: "a \<le> b \<Longrightarrow> pow2 a \<le> pow2 b"
  by (simp add: pow2_powi power_int_increasing)

lemma pow2_strict_mono: "a < b \<Longrightarrow> pow2 a < pow2 b"
  by (simp add: pow2_powi power_int_strict_increasing)

lemma pow2_nat: "pow2 (int n) = 2 ^ n"
  by (simp add: pow2_def)

lemma pow2_numeral: "pow2 (numeral n) = 2 ^ numeral n"
  by (simp add: pow2_powi)

lemma pow2_Suc: "pow2 (e + 1) = 2 * pow2 e"
  by (simp add: pow2_powi power_int_add)

lemma pow2_pred: "pow2 (e - 1) = pow2 e / 2"
  by (simp add: pow2_powi power_int_diff)

lemma ilog2_unique:
  assumes "pow2 e \<le> q" "q < pow2 (e + 1)" "pow2 e' \<le> q" "q < pow2 (e' + 1)"
  shows "e = e'"
proof (rule ccontr)
  assume "e \<noteq> e'"
  then consider "e + 1 \<le> e'" | "e' + 1 \<le> e"
    by linarith
  then show False
  proof cases
    case 1
    then have "pow2 (e + 1) \<le> pow2 e'"
      by (rule pow2_mono)
    with assms show False
      by linarith
  next
    case 2
    then have "pow2 (e' + 1) \<le> pow2 e"
      by (rule pow2_mono)
    with assms show False
      by linarith
  qed
qed

lemma floorlog2_bounds:
  assumes "0 < a"
  shows "(2::rat) ^ floorlog 2 a \<le> 2 * of_nat a" and "of_nat a < (2::rat) ^ floorlog 2 a"
proof -
  have b: "2 ^ (floorlog 2 a - 1) \<le> a" "a < 2 ^ floorlog 2 a"
    using floorlog_bounds [of a 2] assms by simp_all
  have pos: "0 < floorlog 2 a"
    using assms by (simp add: floorlog_def)
  then have "(2::nat) ^ floorlog 2 a = 2 * 2 ^ (floorlog 2 a - 1)"
    by (cases "floorlog 2 a") simp_all
  with b(1) have "(2::nat) ^ floorlog 2 a \<le> 2 * a"
    by simp
  then have "of_nat ((2::nat) ^ floorlog 2 a) \<le> (of_nat (2 * a) :: rat)"
    by (simp only: of_nat_le_iff)
  then show "(2::rat) ^ floorlog 2 a \<le> 2 * of_nat a"
    by simp
  have "(of_nat a :: rat) < of_nat (2 ^ floorlog 2 a)"
    using b(2) by (simp only: of_nat_less_iff)
  then show "of_nat a < (2::rat) ^ floorlog 2 a"
    by simp
qed

lemma ilog2_bounds:
  assumes "0 < q"
  shows "pow2 (ilog2 q) \<le> q \<and> q < pow2 (ilog2 q + 1)"
proof -
  obtain a b where ab: "quotient_of q = (a, b)"
    by (cases "quotient_of q")
  have bpos: "0 < b"
    using ab by (rule quotient_of_denom_pos)
  have q: "q = of_int a / of_int b"
    using ab by (rule quotient_of_div)
  have apos: "0 < a"
    using assms bpos q by (simp add: zero_less_divide_iff)
  define la where "la = floorlog 2 (nat a)"
  define lb where "lb = floorlog 2 (nat b)"
  define k where "k = int la - int lb"
  have A: "(2::rat) ^ la \<le> 2 * of_int a" "of_int a < (2::rat) ^ la"
    using floorlog2_bounds [of "nat a"] apos by (simp_all add: la_def)
  have B: "(2::rat) ^ lb \<le> 2 * of_int b" "of_int b < (2::rat) ^ lb"
    using floorlog2_bounds [of "nat b"] bpos by (simp_all add: lb_def)
  have pk: "pow2 k = 2 ^ la / 2 ^ lb"
    by (simp add: k_def pow2_diff pow2_nat)
  have bq: "0 < (of_int b :: rat)"
    using bpos by simp
  have up: "q < pow2 (k + 1)"
  proof -
    have "of_int a * 2 ^ lb < (2::rat) ^ la * (2 * of_int b)"
      using A(2) B(1) bq apos
      by (intro mult_less_le_imp_less) simp_all
    then have "of_int a / of_int b < 2 * (2 ^ la / 2 ^ lb :: rat)"
      using bq by (simp add: field_simps)
    then show ?thesis
      by (simp add: q pow2_Suc pk)
  qed
  have low: "pow2 (k - 1) \<le> q"
  proof -
    have "(2::rat) ^ la * of_int b \<le> (2 * of_int a) * 2 ^ lb"
      using A(1) B(2) bq apos
      by (intro mult_mono) simp_all
    then have "(2 ^ la / 2 ^ lb :: rat) / 2 \<le> of_int a / of_int b"
      using bq by (simp add: field_simps)
    then show ?thesis
      by (simp add: q pow2_pred pk)
  qed
  have il: "ilog2 q = (if pow2 k \<le> q then k else k - 1)"
    by (simp add: ilog2_def ab la_def lb_def k_def Let_def)
  show ?thesis
  proof (cases "pow2 k \<le> q")
    case True
    with up il show ?thesis
      by simp
  next
    case False
    with low il show ?thesis
      by simp
  qed
qed

lemma ilog2_eqI:
  assumes "pow2 e \<le> q" "q < pow2 (e + 1)"
  shows "ilog2 q = e"
proof -
  have "0 < q"
    using assms(1) pow2_pos [of e] by linarith
  then have "pow2 (ilog2 q) \<le> q \<and> q < pow2 (ilog2 q + 1)"
    by (rule ilog2_bounds)
  then show ?thesis
    using assms ilog2_unique by blast
qed

lemma round_even_cases: "round_even x = \<lfloor>x\<rfloor> \<or> round_even x = \<lfloor>x\<rfloor> + 1 \<and> of_int \<lfloor>x\<rfloor> < x"
  by (auto simp: round_even_def Let_def)

lemma round_even_le:
  assumes "x \<le> of_int n"
  shows "round_even x \<le> n"
proof -
  have f: "\<lfloor>x\<rfloor> \<le> n"
    using assms by (simp add: floor_le_iff)
  from round_even_cases [of x] show ?thesis
  proof
    assume "round_even x = \<lfloor>x\<rfloor>"
    with f show ?thesis by simp
  next
    assume a: "round_even x = \<lfloor>x\<rfloor> + 1 \<and> of_int \<lfloor>x\<rfloor> < x"
    then have "(of_int \<lfloor>x\<rfloor> :: rat) < of_int n"
      using assms by linarith
    then have "\<lfloor>x\<rfloor> < n"
      by (simp only: of_int_less_iff)
    with a show ?thesis by simp
  qed
qed

lemma round_even_ge:
  assumes "of_int n \<le> x"
  shows "n \<le> round_even x"
proof -
  have "n \<le> \<lfloor>x\<rfloor>"
    using assms by (simp add: le_floor_iff)
  with round_even_cases [of x] show ?thesis
    by auto
qed

lemma round_even_of_int [simp]: "round_even (of_int n) = n"
  by (simp add: round_even_def)

text \<open>Rounding within a binade stays in its closure.\<close>

lemma round_binade:
  assumes "pow2 e \<le> \<bar>q\<bar>" "\<bar>q\<bar> < pow2 (e + 1)"
  defines "r \<equiv> of_int (round_even (q / pow2 (e - 52))) * pow2 (e - 52)"
  shows "pow2 e \<le> \<bar>r\<bar>" and "\<bar>r\<bar> \<le> pow2 (e + 1)" and "0 < q \<Longrightarrow> 0 < r" and "q < 0 \<Longrightarrow> r < 0"
proof -
  define ulp where "ulp = pow2 (e - 52)"
  define m where "m = round_even (q / ulp)"
  have ulp: "0 < ulp"
    by (simp add: ulp_def)
  have e: "pow2 e = 2 ^ 52 * ulp" and e1: "pow2 (e + 1) = 2 ^ 53 * ulp"
    by (simp_all add: ulp_def pow2_diff pow2_Suc pow2_numeral)
  have r: "r = of_int m * ulp"
    by (simp add: r_def m_def ulp_def)
  have pos: "2 ^ 52 \<le> m \<and> m \<le> 2 ^ 53" if "0 < q"
  proof -
    have "2 ^ 52 * ulp \<le> q" "q < 2 ^ 53 * ulp"
      using assms(1,2) that by (simp_all add: e e1)
    then have "of_int (2 ^ 52) \<le> q / ulp" "q / ulp \<le> of_int (2 ^ 53)"
      using ulp by (simp_all add: field_simps)
    then show ?thesis
      unfolding m_def by (intro conjI round_even_ge round_even_le)
  qed
  have neg: "- (2 ^ 53) \<le> m \<and> m \<le> - (2 ^ 52)" if "q < 0"
  proof -
    have "2 ^ 52 * ulp \<le> - q" "- q < 2 ^ 53 * ulp"
      using assms(1,2) that by (simp_all add: e e1)
    then have "of_int (- (2 ^ 53)) \<le> q / ulp" "q / ulp \<le> of_int (- (2 ^ 52))"
      using ulp by (simp_all add: field_simps)
    then show ?thesis
      unfolding m_def by (intro conjI round_even_ge round_even_le)
  qed
  have q0: "q \<noteq> 0"
  proof
    assume "q = 0"
    with assms(1) have "pow2 e \<le> 0" by simp
    with pow2_pos [of e] show False by linarith
  qed
  have absm: "2 ^ 52 \<le> \<bar>m\<bar> \<and> \<bar>m\<bar> \<le> 2 ^ 53"
    using pos neg q0 by (cases "0 < q") auto
  have absr: "\<bar>r\<bar> = of_int \<bar>m\<bar> * ulp"
    using ulp by (simp add: r abs_mult)
  have "(of_int (2 ^ 52) :: rat) \<le> of_int \<bar>m\<bar>" "(of_int \<bar>m\<bar> :: rat) \<le> of_int (2 ^ 53)"
    using absm by (simp_all only: of_int_le_iff)
  then have "2 ^ 52 * ulp \<le> of_int \<bar>m\<bar> * ulp" "of_int \<bar>m\<bar> * ulp \<le> 2 ^ 53 * ulp"
    using ulp by simp_all
  then show "pow2 e \<le> \<bar>r\<bar>" and "\<bar>r\<bar> \<le> pow2 (e + 1)"
    by (simp_all add: absr e e1)
  show "0 < r" if "0 < q"
    using pos [OF that] ulp by (simp add: r zero_less_mult_iff)
  show "r < 0" if "q < 0"
    using neg [OF that] ulp by (simp add: r mult_less_0_iff)
qed

text \<open>What \<open>f64_round\<close> returns once the exponent is known.\<close>

lemma f64_round_binade:
  assumes "pow2 e \<le> \<bar>q\<bar>" "\<bar>q\<bar> < pow2 (e + 1)" "- 1022 \<le> e" "e \<le> 1022"
  shows "f64_round q = Fin (of_int (round_even (q / pow2 (e - 52))) * pow2 (e - 52))"
proof -
  have q0: "q \<noteq> 0"
  proof
    assume "q = 0"
    with assms(1) have "pow2 e \<le> 0" by simp
    with pow2_pos [of e] show False by linarith
  qed
  have il: "ilog2 \<bar>q\<bar> = e"
    using assms(1,2) by (rule ilog2_eqI)
  have "\<bar>of_int (round_even (q / pow2 (e - 52))) * pow2 (e - 52)\<bar> \<le> pow2 (e + 1)"
    using assms(1,2) by (rule round_binade(2))
  also have "pow2 (e + 1) < pow2 1024"
    using assms(4) by (intro pow2_strict_mono) simp
  finally have "\<not> pow2 1024 \<le> \<bar>of_int (round_even (q / pow2 (e - 52))) * pow2 (e - 52)\<bar>"
    by simp
  then show ?thesis
    using q0 assms(3) by (simp add: f64_round_def il Let_def max_def)
qed

lemma floor_rat_numeral_div [simp]:
  "\<lfloor>numeral a / numeral b :: rat\<rfloor> = numeral a div numeral b"
  by (metis floor_divide_of_int_eq of_int_numeral)

lemma floor_rat_neg_numeral_div [simp]:
  "\<lfloor>- (numeral a / numeral b) :: rat\<rfloor> = - numeral a div numeral b"
  by (metis divide_minus_left floor_divide_of_int_eq of_int_neg_numeral of_int_numeral)

lemma ceiling_rat_numeral_div [simp]:
  "\<lceil>numeral a / numeral b :: rat\<rceil> = - (- numeral a div numeral b)"
  by (simp add: ceiling_def)

lemma ceiling_rat_neg_numeral_div [simp]:
  "\<lceil>- (numeral a / numeral b) :: rat\<rceil> = - (numeral a div numeral b)"
  by (simp add: ceiling_def)

lemma f64_round_evalI:
  assumes "pow2 e \<le> \<bar>q\<bar>" "\<bar>q\<bar> < pow2 (e + 1)" "- 1022 \<le> e" "e \<le> 1022"
    and "of_int (round_even (q / pow2 (e - 52))) * pow2 (e - 52) = r"
  shows "f64_round q = Fin r"
  using f64_round_binade [OF assms(1-4)] assms(5) by simp

lemmas f64_eval = pow2_def round_even_def Let_def

text \<open>
  The model at values whose binary64 results are well known: the nearest binary64 to
  one tenth; the sum of the binary64 values of 0.1 and 0.2, which is
  0.30000000000000004; \<open>2^53 + 1\<close>, a tie that goes to the even neighbour; the largest
  binary64 below one half plus one half, which is 1; and the overflow at \<open>2^1024\<close>.
\<close>

lemma f64_round_one_tenth:
  "f64_round (1 / 10) = Fin (3602879701896397 / 36028797018963968)"
  by (rule f64_round_evalI [where e = "- 4"]) (simp_all add: f64_eval)

lemma f64_add_tenth_fifth:
  "f64_add (Fin (3602879701896397 / 36028797018963968)) (Fin (3602879701896397 / 18014398509481984))
     = Fin (1351079888211149 / 4503599627370496)"
proof -
  have "f64_round (3602879701896397 / 36028797018963968 + 3602879701896397 / 18014398509481984)
      = Fin (1351079888211149 / 4503599627370496)"
    by (rule f64_round_evalI [where e = "- 2"]) (simp_all add: f64_eval)
  then show ?thesis
    by (simp only: f64_add.simps)
qed

lemma f64_of_int_tie: "f64_of_int 9007199254740993 = Fin 9007199254740992"
  unfolding f64_of_int_def
  by (rule f64_round_evalI [where e = 53]) (simp_all add: f64_eval)

lemma f64_add_half_tie:
  "f64_add (Fin (9007199254740991 / 18014398509481984)) (Fin (1 / 2)) = Fin 1"
proof -
  have "f64_round (9007199254740991 / 18014398509481984 + 1 / 2) = Fin 1"
    by (rule f64_round_evalI [where e = "- 1"]) (simp_all add: f64_eval)
  then show ?thesis
    by (simp only: f64_add.simps)
qed

lemma f64_round_overflow: "f64_round (2 ^ 1024) = PInf"
proof -
  have p: "pow2 1024 = 2 ^ 1024"
    by (simp add: pow2_numeral)
  have "pow2 1024 \<le> (2 ^ 1024 :: rat)" "(2 ^ 1024 :: rat) < pow2 (1024 + 1)"
    by (simp_all add: pow2_numeral)
  then have "ilog2 (2 ^ 1024) = 1024"
    by (rule ilog2_eqI)
  moreover have "(2 ^ 1024 :: rat) / pow2 (1024 - 52) = of_int (2 ^ 52)"
    by (simp add: pow2_diff p pow2_numeral)
  moreover have "of_int (2 ^ 52) * pow2 (1024 - 52) = (2 ^ 1024 :: rat)"
    by (simp add: pow2_diff p pow2_numeral)
  ultimately show ?thesis
    by (simp add: f64_round_def round_even_def Let_def p)
qed

lemma f64_round_exact_pow2:
  assumes "\<bar>q\<bar> = pow2 e" "- 1022 \<le> e" "e \<le> 1022"
  shows "f64_round q = Fin q"
proof -
  have b: "pow2 e \<le> \<bar>q\<bar>" "\<bar>q\<bar> < pow2 (e + 1)"
    using assms(1) pow2_strict_mono [of e "e + 1"] by simp_all
  have "pow2 e = of_int (2 ^ 52) * pow2 (e - 52)"
    by (simp add: pow2_diff pow2_numeral)
  then have "q = of_int (2 ^ 52) * pow2 (e - 52) \<or> q = of_int (- (2 ^ 52)) * pow2 (e - 52)"
    using assms(1) by (cases "0 \<le> q") simp_all
  then have "\<exists>m. q / pow2 (e - 52) = of_int m"
    using pow2_pos [of "e - 52"] by (metis nonzero_mult_div_cancel_right less_irrefl)
  then obtain m where m: "q / pow2 (e - 52) = of_int m" ..
  then have "of_int (round_even (q / pow2 (e - 52))) * pow2 (e - 52) = q"
    using pow2_pos [of "e - 52"] by (simp add: field_simps)
  then show ?thesis
    using f64_round_binade [OF b assms(2,3)] by simp
qed

lemma f64_round_bounded:
  assumes "q = 0 \<or> pow2 j \<le> \<bar>q\<bar>" "\<bar>q\<bar> \<le> pow2 k" "- 1022 \<le> j" "k \<le> 1022"
  shows "\<exists>r. f64_round q = Fin r \<and> \<bar>r\<bar> \<le> pow2 k \<and> (r = 0 \<or> pow2 j \<le> \<bar>r\<bar>)
           \<and> (0 < q \<longrightarrow> 0 < r)"
proof (cases "q = 0")
  case True
  then show ?thesis
    using pow2_pos [of k] by (simp add: f64_round_def less_imp_le)
next
  case False
  then have lowq: "pow2 j \<le> \<bar>q\<bar>"
    using assms(1) by simp
  define e where "e = ilog2 \<bar>q\<bar>"
  have "0 < \<bar>q\<bar>"
    using False by simp
  then have b: "pow2 e \<le> \<bar>q\<bar>" "\<bar>q\<bar> < pow2 (e + 1)"
    using ilog2_bounds [of "\<bar>q\<bar>"] by (simp_all add: e_def)
  have je: "j \<le> e"
  proof (rule ccontr)
    assume "\<not> j \<le> e"
    then have "pow2 (e + 1) \<le> pow2 j"
      by (intro pow2_mono) simp
    with b(2) lowq show False
      by linarith
  qed
  have ek: "e \<le> k"
  proof (rule ccontr)
    assume "\<not> e \<le> k"
    then have "pow2 k < pow2 e"
      by (intro pow2_strict_mono) simp
    with b(1) assms(2) show False
      by linarith
  qed
  show ?thesis
  proof (cases "\<bar>q\<bar> = pow2 k")
    case True
    then have "f64_round q = Fin q"
      using assms(3,4) je ek b
      by (intro f64_round_exact_pow2 [of q k]) (use ilog2_unique in \<open>auto\<close>)
    with True lowq show ?thesis
      by simp
  next
    case neq: False
    then have "\<bar>q\<bar> < pow2 k"
      using assms(2) by simp
    have "e + 1 \<le> k"
    proof (rule ccontr)
      assume "\<not> e + 1 \<le> k"
      with ek have "e = k" by simp
      with b(1) assms(2) neq show False by simp
    qed
    define r where "r = of_int (round_even (q / pow2 (e - 52))) * pow2 (e - 52)"
    have fr: "f64_round q = Fin r"
      unfolding r_def using b assms(3,4) je \<open>e + 1 \<le> k\<close>
      by (intro f64_round_binade) simp_all
    have "pow2 e \<le> \<bar>r\<bar>" "\<bar>r\<bar> \<le> pow2 (e + 1)" "0 < q \<longrightarrow> 0 < r"
      unfolding r_def using round_binade [OF b] by blast+
    moreover have "pow2 j \<le> pow2 e" "pow2 (e + 1) \<le> pow2 k"
      using je \<open>e + 1 \<le> k\<close> by (simp_all add: pow2_mono)
    ultimately show ?thesis
      using fr by (intro exI [of _ r]) auto
  qed
qed

section \<open>Team percentages\<close>

lemma f64_of_int_bounded:
  "\<exists>r. f64_of_int i = Fin r \<and> \<bar>r\<bar> \<le> pow2 63 \<and> (r = 0 \<or> pow2 0 \<le> \<bar>r\<bar>) \<and> (0 <s i \<longrightarrow> 0 < r)"
proof -
  define n where "n = sint i"
  have "- (2 ^ 63) \<le> n" "n < 2 ^ 63"
    using sint_ge [of i] sint_lt [of i] by (simp_all add: n_def)
  then have "\<bar>n\<bar> \<le> 2 ^ 63"
    by simp
  then have "(of_int \<bar>n\<bar> :: rat) \<le> of_int (2 ^ 63)"
    by (simp only: of_int_le_iff)
  then have up: "\<bar>of_int n :: rat\<bar> \<le> pow2 63"
    by (simp add: pow2_numeral)
  have low: "(of_int n :: rat) = 0 \<or> pow2 0 \<le> \<bar>of_int n :: rat\<bar>"
  proof (cases "n = 0")
    case True
    then show ?thesis by simp
  next
    case False
    then have "1 \<le> \<bar>n\<bar>"
      by simp
    then have "(of_int 1 :: rat) \<le> of_int \<bar>n\<bar>"
      by (simp only: of_int_le_iff)
    then show ?thesis
      by (simp add: pow2_def)
  qed
  obtain r where r: "f64_round (of_int n) = Fin r" "\<bar>r\<bar> \<le> pow2 63"
      "r = 0 \<or> pow2 0 \<le> \<bar>r\<bar>" "0 < (of_int n :: rat) \<longrightarrow> 0 < r"
    using f64_round_bounded [OF low up] by auto
  have "0 <s i \<longleftrightarrow> 0 < n"
    by (simp add: word_sless_alt n_def)
  with r show ?thesis
    by (auto simp: f64_of_int_def n_def [symmetric])
qed

lemma percentage_finite:
  assumes "\<bar>a\<bar> \<le> pow2 63" "a = 0 \<or> pow2 0 \<le> \<bar>a\<bar>" "0 < b" "\<bar>b\<bar> \<le> pow2 63" "b = 0 \<or> pow2 0 \<le> \<bar>b\<bar>"
  shows "\<exists>d. f64_mul (f64_div (Fin a) (Fin b)) (Fin 100) = Fin d"
proof -
  have b1: "1 \<le> b" and b63: "b \<le> pow2 63"
    using assms(3,4,5) by (simp_all add: pow2_def)
  have up: "\<bar>a / b\<bar> \<le> pow2 63"
  proof -
    have "\<bar>a\<bar> / b \<le> \<bar>a\<bar> / 1"
      using b1 by (intro divide_left_mono) simp_all
    with assms(1) show ?thesis
      using assms(3) by simp
  qed
  have low: "a / b = 0 \<or> pow2 (- 63) \<le> \<bar>a / b\<bar>"
  proof (cases "a = 0")
    case True
    then show ?thesis by simp
  next
    case False
    then have a1: "1 \<le> \<bar>a\<bar>"
      using assms(2) by (simp add: pow2_def)
    have "1 / pow2 63 \<le> \<bar>a\<bar> / b"
      using a1 b63 assms(3) by (intro frac_le) simp_all
    moreover have "pow2 (- 63) = 1 / pow2 63"
      by (simp add: pow2_def)
    ultimately show ?thesis
      using assms(3) by simp
  qed
  obtain c where c: "f64_round (a / b) = Fin c" "\<bar>c\<bar> \<le> pow2 63" "c = 0 \<or> pow2 (- 63) \<le> \<bar>c\<bar>"
    using f64_round_bounded [OF low up] by auto
  have up2: "\<bar>c * 100\<bar> \<le> pow2 70"
  proof -
    have "\<bar>c\<bar> * 100 \<le> pow2 63 * 128"
      using c(2) by (intro mult_mono) simp_all
    also have "pow2 63 * 128 = pow2 70"
      by (simp add: pow2_def)
    finally show ?thesis
      by (simp add: abs_mult)
  qed
  have low2: "c * 100 = 0 \<or> pow2 (- 63) \<le> \<bar>c * 100\<bar>"
  proof (cases "c = 0")
    case True
    then show ?thesis by simp
  next
    case False
    then have "pow2 (- 63) \<le> \<bar>c\<bar>"
      using c(3) by simp
    also have "\<bar>c\<bar> \<le> \<bar>c\<bar> * 100"
      by simp
    finally show ?thesis
      by (simp add: abs_mult)
  qed
  obtain d where "f64_round (c * 100) = Fin d"
    using f64_round_bounded [OF low2 up2] by auto
  then show ?thesis
    using assms(3) c(1) by simp
qed

text \<open>
  Claim C8. \<open>FaceoffPercentage\<close> is exactly 0.0 when \<open>FaceoffTotal\<close> is 0, and
  \<open>PowerPlayPercentage\<close> is exactly 0.0 when \<open>PowerPlayOpportunities\<close> is 0. Both
  methods always return a finite number, so never NaN (nor an infinity); and whenever the
  guard lets the division run, the divisor is not zero.
\<close>

theorem percentages_guarded:
  "(FaceoffTotal t = 0 \<longrightarrow> FaceoffPercentage t = Fin 0) \<and>
   (PowerPlayOpportunities t = 0 \<longrightarrow> PowerPlayPercentage t = Fin 0) \<and>
   (\<exists>r. FaceoffPercentage t = Fin r) \<and>
   (\<exists>r. PowerPlayPercentage t = Fin r) \<and>
   (0 <s FaceoffTotal t \<longrightarrow> f64_of_int (FaceoffTotal t) \<noteq> Fin 0) \<and>
   (0 <s PowerPlayOpportunities t \<longrightarrow> f64_of_int (PowerPlayOpportunities t) \<noteq> Fin 0)"
proof -
  have fin: "\<exists>d. f64_mul (f64_div (f64_of_int w) (f64_of_int n)) (Fin 100) = Fin d"
    if pos: "0 <s n" for w n :: int64
  proof -
    obtain a where a: "f64_of_int w = Fin a" "\<bar>a\<bar> \<le> pow2 63" "a = 0 \<or> pow2 0 \<le> \<bar>a\<bar>"
      using f64_of_int_bounded [of w] by auto
    obtain b where b: "f64_of_int n = Fin b" "\<bar>b\<bar> \<le> pow2 63" "b = 0 \<or> pow2 0 \<le> \<bar>b\<bar>" "0 < b"
      using f64_of_int_bounded [of n] pos by auto
    show ?thesis
      unfolding a(1) b(1) using a(2,3) b(4,2,3) by (rule percentage_finite)
  qed
  have nz: "f64_of_int n \<noteq> Fin 0" if "0 <s n" for n :: int64
    using f64_of_int_bounded [of n] that by auto
  have a: "FaceoffTotal t = 0 \<longrightarrow> FaceoffPercentage t = Fin 0"
    by (simp add: FaceoffPercentage_def)
  have b: "PowerPlayOpportunities t = 0 \<longrightarrow> PowerPlayPercentage t = Fin 0"
    by (simp add: PowerPlayPercentage_def)
  have c: "\<exists>r. FaceoffPercentage t = Fin r"
    using fin [of "FaceoffTotal t" "FaceoffWins t"] by (simp add: FaceoffPercentage_def)
  have d: "\<exists>r. PowerPlayPercentage t = Fin r"
    using fin [of "PowerPlayOpportunities t" "TeamGameStats.PowerPlayGoals t"]
    by (simp add: PowerPlayPercentage_def)
  from a b c d nz show ?thesis
    by blast
qed

text \<open>
  The statement at the zero statistics and at 7 faceoffs won out of 20.
\<close>

theorem percentages_guarded_witness:
  "FaceoffTotal TeamGameStats_zero = 0 \<and>
   FaceoffPercentage TeamGameStats_zero = Fin 0 \<and>
   PowerPlayOpportunities TeamGameStats_zero = 0 \<and>
   PowerPlayPercentage TeamGameStats_zero = Fin 0 \<and>
   0 <s FaceoffTotal (TeamGameStats_zero\<lparr>FaceoffWins := 7, FaceoffTotal := 20\<rparr>) \<and>
   f64_of_int (FaceoffTotal (TeamGameStats_zero\<lparr>FaceoffWins := 7, FaceoffTotal := 20\<rparr>)) \<noteq> Fin 0 \<and>
   (\<exists>r. FaceoffPercentage (TeamGameStats_zero\<lparr>FaceoffWins := 7, FaceoffTotal := 20\<rparr>) = Fin r)"
proof -
  have z: "FaceoffTotal TeamGameStats_zero = 0" "PowerPlayOpportunities TeamGameStats_zero = 0"
    by (simp_all add: TeamGameStats_zero_def)
  have p: "0 <s FaceoffTotal (TeamGameStats_zero\<lparr>FaceoffWins := 7, FaceoffTotal := 20\<rparr>)"
    by (simp add: word_sless_alt)
  show ?thesis
    using z p percentages_guarded [of TeamGameStats_zero]
      percentages_guarded [of "TeamGameStats_zero\<lparr>FaceoffWins := 7, FaceoffTotal := 20\<rparr>"]
    by blast
qed

section \<open>Team totals\<close>

lemma addFaceoffStats_other:
  "ShotsOnGoal (addFaceoffStats pf t s) = ShotsOnGoal t"
  "TeamGameStats.PowerPlayGoals (addFaceoffStats pf t s) = TeamGameStats.PowerPlayGoals t"
  "PowerPlayOpportunities (addFaceoffStats pf t s) = PowerPlayOpportunities t"
  "PenaltyMinutes (addFaceoffStats pf t s) = PenaltyMinutes t"
  "TeamGameStats.Hits (addFaceoffStats pf t s) = TeamGameStats.Hits t"
  "TeamGameStats.BlockedShots (addFaceoffStats pf t s) = TeamGameStats.BlockedShots t"
  "TeamGameStats.Giveaways (addFaceoffStats pf t s) = TeamGameStats.Giveaways t"
  "TeamGameStats.Takeaways (addFaceoffStats pf t s) = TeamGameStats.Takeaways t"
  by (simp_all add: addFaceoffStats_def Let_def)

lemma addSkater_fields:
  "ShotsOnGoal (addSkater pf t s) = ShotsOnGoal t + SOG s"
  "TeamGameStats.PowerPlayGoals (addSkater pf t s)
     = TeamGameStats.PowerPlayGoals t + SkaterStats.PowerPlayGoals s"
  "PowerPlayOpportunities (addSkater pf t s) = PowerPlayOpportunities t"
  "PenaltyMinutes (addSkater pf t s) = PenaltyMinutes t + SkaterStats.PIM s"
  "TeamGameStats.Hits (addSkater pf t s) = TeamGameStats.Hits t + SkaterStats.Hits s"
  "TeamGameStats.BlockedShots (addSkater pf t s)
     = TeamGameStats.BlockedShots t + SkaterStats.BlockedShots s"
  "TeamGameStats.Giveaways (addSkater pf t s)
     = TeamGameStats.Giveaways t + SkaterStats.Giveaways s"
  "TeamGameStats.Takeaways (addSkater pf t s)
     = TeamGameStats.Takeaways t + SkaterStats.Takeaways s"
  by (simp_all add: addSkater_def addFaceoffStats_other)

lemma addSkater_faceoffs:
  "FaceoffTotal (addSkater pf t s)
     = FaceoffTotal t + (if takes_faceoffs s then Shifts s else 0)"
  "FaceoffWins (addSkater pf t s)
     = FaceoffWins t + (if takes_faceoffs s then faceoff_wins pf s else 0)"
  by (simp_all add: addSkater_def addFaceoffStats_def takes_faceoffs_def faceoff_wins_def Let_def)

lemma foldl_addSkater:
  "ShotsOnGoal (foldl (addSkater pf) t xs) = ShotsOnGoal t + sum_list (map SOG xs)"
  "TeamGameStats.PowerPlayGoals (foldl (addSkater pf) t xs)
     = TeamGameStats.PowerPlayGoals t + sum_list (map SkaterStats.PowerPlayGoals xs)"
  "PowerPlayOpportunities (foldl (addSkater pf) t xs) = PowerPlayOpportunities t"
  "PenaltyMinutes (foldl (addSkater pf) t xs)
     = PenaltyMinutes t + sum_list (map SkaterStats.PIM xs)"
  "TeamGameStats.Hits (foldl (addSkater pf) t xs)
     = TeamGameStats.Hits t + sum_list (map SkaterStats.Hits xs)"
  "TeamGameStats.BlockedShots (foldl (addSkater pf) t xs)
     = TeamGameStats.BlockedShots t + sum_list (map SkaterStats.BlockedShots xs)"
  "TeamGameStats.Giveaways (foldl (addSkater pf) t xs)
     = TeamGameStats.Giveaways t + sum_list (map SkaterStats.Giveaways xs)"
  "TeamGameStats.Takeaways (foldl (addSkater pf) t xs)
     = TeamGameStats.Takeaways t + sum_list (map SkaterStats.Takeaways xs)"
  "FaceoffTotal (foldl (addSkater pf) t xs)
     = FaceoffTotal t + sum_list (map Shifts (filter takes_faceoffs xs))"
  "FaceoffWins (foldl (addSkater pf) t xs)
     = FaceoffWins t + sum_list (map (faceoff_wins pf) (filter takes_faceoffs xs))"
  by (induction xs arbitrary: t)
    (simp_all add: addSkater_fields addSkater_faceoffs add.assoc)

lemma addGoalie_fields:
  "ShotsOnGoal (addGoalie t g) = ShotsOnGoal t"
  "TeamGameStats.PowerPlayGoals (addGoalie t g) = TeamGameStats.PowerPlayGoals t"
  "PowerPlayOpportunities (addGoalie t g) = PowerPlayOpportunities t + PowerPlayGoalsAgainst g"
  "PenaltyMinutes (addGoalie t g) = PenaltyMinutes t + goalie_pim g"
  "TeamGameStats.Hits (addGoalie t g) = TeamGameStats.Hits t"
  "TeamGameStats.BlockedShots (addGoalie t g) = TeamGameStats.BlockedShots t"
  "TeamGameStats.Giveaways (addGoalie t g) = TeamGameStats.Giveaways t"
  "TeamGameStats.Takeaways (addGoalie t g) = TeamGameStats.Takeaways t"
  "FaceoffTotal (addGoalie t g) = FaceoffTotal t"
  "FaceoffWins (addGoalie t g) = FaceoffWins t"
  by (simp_all add: addGoalie_def goalie_pim_def Let_def split: option.split)

lemma foldl_addGoalie:
  "ShotsOnGoal (foldl addGoalie t gs) = ShotsOnGoal t"
  "TeamGameStats.PowerPlayGoals (foldl addGoalie t gs) = TeamGameStats.PowerPlayGoals t"
  "PowerPlayOpportunities (foldl addGoalie t gs)
     = PowerPlayOpportunities t + sum_list (map PowerPlayGoalsAgainst gs)"
  "PenaltyMinutes (foldl addGoalie t gs) = PenaltyMinutes t + sum_list (map goalie_pim gs)"
  "TeamGameStats.Hits (foldl addGoalie t gs) = TeamGameStats.Hits t"
  "TeamGameStats.BlockedShots (foldl addGoalie t gs) = TeamGameStats.BlockedShots t"
  "TeamGameStats.Giveaways (foldl addGoalie t gs) = TeamGameStats.Giveaways t"
  "TeamGameStats.Takeaways (foldl addGoalie t gs) = TeamGameStats.Takeaways t"
  "FaceoffTotal (foldl addGoalie t gs) = FaceoffTotal t"
  "FaceoffWins (foldl addGoalie t gs) = FaceoffWins t"
  by (induction gs arbitrary: t) (simp_all add: addGoalie_fields add.assoc)

lemma FromTeamPlayerStats_fields:
  "ShotsOnGoal (FromTeamPlayerStats pf stats) = sum_list (map SOG (Forwards stats @ Defense stats))"
  "TeamGameStats.PowerPlayGoals (FromTeamPlayerStats pf stats)
     = sum_list (map SkaterStats.PowerPlayGoals (Forwards stats @ Defense stats))"
  "PowerPlayOpportunities (FromTeamPlayerStats pf stats)
     = sum_list (map PowerPlayGoalsAgainst (Goalies stats))"
  "PenaltyMinutes (FromTeamPlayerStats pf stats)
     = sum_list (map SkaterStats.PIM (Forwards stats @ Defense stats))
       + sum_list (map goalie_pim (Goalies stats))"
  "TeamGameStats.Hits (FromTeamPlayerStats pf stats)
     = sum_list (map SkaterStats.Hits (Forwards stats @ Defense stats))"
  "TeamGameStats.BlockedShots (FromTeamPlayerStats pf stats)
     = sum_list (map SkaterStats.BlockedShots (Forwards stats @ Defense stats))"
  "TeamGameStats.Giveaways (FromTeamPlayerStats pf stats)
     = sum_list (map SkaterStats.Giveaways (Forwards stats @ Defense stats))"
  "TeamGameStats.Takeaways (FromTeamPlayerStats pf stats)
     = sum_list (map SkaterStats.Takeaways (Forwards stats @ Defense stats))"
  "FaceoffTotal (FromTeamPlayerStats pf stats)
     = sum_list (map Shifts (filter takes_faceoffs (Forwards stats @ Defense stats)))"
  "FaceoffWins (FromTeamPlayerStats pf stats)
     = sum_list (map (faceoff_wins pf) (filter takes_faceoffs (Forwards stats @ Defense stats)))"
  by (simp_all add: FromTeamPlayerStats_def aggregateSkaterStats_def aggregateGoalieStats_def
      Let_def foldl_addSkater foldl_addGoalie TeamGameStats_zero_def del: foldl_append map_append filter_append)

lemma faceoff_wins_27_055:
  assumes "Shifts s = 27" "FaceoffWinningPctg s = f64_round (11 / 20)"
  shows "faceoff_wins pf s = 15"
proof -
  define p :: rat where "p = 2476979795053773 / 4503599627370496"
  have pct: "f64_round (11 / 20) = Fin p"
    unfolding p_def by (rule f64_round_evalI [where e = "- 1"]) (simp_all add: f64_eval)
  have n: "f64_of_int 27 = Fin 27"
    unfolding f64_of_int_def by (rule f64_round_evalI [where e = 4]) (simp_all add: f64_eval)
  have m: "f64_round (27 * p) = Fin (2089951702076621 / 140737488355328)"
    unfolding p_def by (rule f64_round_evalI [where e = 3]) (simp_all add: f64_eval)
  have "f64_round (2160320446254285 / 140737488355328)
      = Fin (2160320446254285 / 140737488355328)"
    by (rule f64_round_evalI [where e = 3]) (simp_all add: f64_eval)
  then have a: "f64_add (Fin (2089951702076621 / 140737488355328)) (Fin (1 / 2))
      = Fin (2160320446254285 / 140737488355328)"
    by simp
  have f: "f64_round (27 * p + 1 / 2) = Fin (2160320446254285 / 140737488355328)"
    unfolding p_def by (rule f64_round_evalI [where e = 3]) (simp_all add: f64_eval)
  have "f64_mul (Fin 27) (Fin p) = Fin (2089951702076621 / 140737488355328)"
    using m by simp
  then have "f64_mul_add pf (Fin 27) (Fin p) (Fin (1 / 2)) = Fin (2160320446254285 / 140737488355328)"
    by (simp only: f64_mul_add_def a f prod.case float64.case if_cancel)
  moreover have "trunc (2160320446254285 / 140737488355328) = 15"
    by (simp add: trunc_def)
  ultimately show ?thesis
    by (simp add: faceoff_wins_def assms pct n int_of_f64_def)
qed

lemma faceoff_wins_neg3_075:
  assumes "Shifts s = - 3" "FaceoffWinningPctg s = Fin (3 / 4)"
  shows "faceoff_wins pf s = - 1"
proof -
  have n: "f64_of_int (- 3) = Fin (- 3)"
    unfolding f64_of_int_def by (rule f64_round_evalI [where e = 1]) (simp_all add: f64_eval)
  have m: "f64_round (- 3 * (3 / 4)) = Fin (- (9 / 4))"
    by (rule f64_round_evalI [where e = 1]) (simp_all add: f64_eval)
  have "f64_round (- (7 / 4)) = Fin (- (7 / 4))"
    by (rule f64_round_evalI [where e = 0]) (simp_all add: f64_eval)
  then have a: "f64_add (Fin (- (9 / 4))) (Fin (1 / 2)) = Fin (- (7 / 4))"
    by simp
  have f: "f64_round (- 3 * (3 / 4) + 1 / 2) = Fin (- (7 / 4))"
    by (rule f64_round_evalI [where e = 0]) (simp_all add: f64_eval)
  have "f64_mul (Fin (- 3)) (Fin (3 / 4)) = Fin (- (9 / 4))"
    using m by simp
  then have "f64_mul_add pf (Fin (- 3)) (Fin (3 / 4)) (Fin (1 / 2)) = Fin (- (7 / 4))"
    by (simp only: f64_mul_add_def a f prod.case float64.case if_cancel)
  moreover have "trunc (- (7 / 4)) = - 1"
    by (simp add: trunc_def)
  ultimately show ?thesis
    by (simp add: faceoff_wins_def assms n int_of_f64_def)
qed

lemma faceoff_wins_one_shift:
  assumes "Shifts s = 1" "FaceoffWinningPctg s = Fin (9007199254740991 / 18014398509481984)"
  shows "faceoff_wins pf s = 1"
proof -
  define p :: rat where "p = 9007199254740991 / 18014398509481984"
  have n: "f64_of_int 1 = Fin 1"
    unfolding f64_of_int_def by (rule f64_round_evalI [where e = 0]) (simp_all add: f64_eval)
  have "f64_round (1 * p) = Fin p"
    unfolding p_def by (rule f64_round_evalI [where e = "- 2"]) (simp_all add: f64_eval)
  then have m: "f64_mul (Fin 1) (Fin p) = Fin p"
    by (simp only: f64_mul.simps)
  have "f64_round (p + 1 / 2) = Fin 1"
    unfolding p_def by (rule f64_round_evalI [where e = "- 1"]) (simp_all add: f64_eval)
  then have a: "f64_add (Fin p) (Fin (1 / 2)) = Fin 1"
    by (simp only: f64_add.simps)
  have f: "f64_round (1 * p + 1 / 2) = Fin 1"
    unfolding p_def by (rule f64_round_evalI [where e = "- 1"]) (simp_all add: f64_eval)
  have "f64_mul_add pf (Fin 1) (Fin p) (Fin (1 / 2)) = Fin 1"
    by (simp only: f64_mul_add_def m a f prod.case float64.case if_cancel)
  moreover have "trunc 1 = 1"
    by (simp add: trunc_def)
  ultimately show ?thesis
    by (simp add: faceoff_wins_def assms n int_of_f64_def p_def)
qed

lemma f64_round_11_20_pos: "f64_gt (f64_round (11 / 20)) (Fin 0)"
proof -
  have "f64_round (11 / 20) = Fin (2476979795053773 / 4503599627370496)"
    by (rule f64_round_evalI [where e = "- 1"]) (simp_all add: f64_eval)
  then show ?thesis
    by simp
qed

text \<open>
  Claim C1, amended. For every input, the shots on goal, power-play goals, hits, blocked
  shots, giveaways and takeaways of the result are the sums (in Go's \<open>int\<close>) of the
  skaters' fields over forwards followed by defense; the penalty minutes are the skaters'
  sum plus every non-nil goalie PIM; the power-play opportunities are the sum of the
  goalies' \<open>PowerPlayGoalsAgainst\<close>; \<open>FaceoffTotal\<close> is the sum of \<open>Shifts\<close> over
  exactly the skaters at position Center with a percentage greater than 0; and
  \<open>FaceoffWins\<close> is the sum over the same skaters of
  \<open>int(float64(Shifts) * FaceoffWinningPctg + 0.5)\<close>, the float64 value cut towards zero.
  A single center with 27 shifts and the percentage 0.55 gives 27 and 15.
\<close>

theorem FromTeamPlayerStats_totals:
  "(let skaters = Forwards stats @ Defense stats;
        centers = filter (\<lambda>s. SkaterStats.Position s = PositionCenter
                              \<and> f64_gt (FaceoffWinningPctg s) (Fin 0)) skaters;
        t = FromTeamPlayerStats pf stats
    in ShotsOnGoal t = sum_list (map SOG skaters) \<and>
       TeamGameStats.PowerPlayGoals t = sum_list (map SkaterStats.PowerPlayGoals skaters) \<and>
       PenaltyMinutes t
         = sum_list (map SkaterStats.PIM skaters)
           + sum_list (map (\<lambda>g. case GoalieStats.PIM g of None \<Rightarrow> 0 | Some pim \<Rightarrow> pim)
                         (Goalies stats)) \<and>
       TeamGameStats.Hits t = sum_list (map SkaterStats.Hits skaters) \<and>
       TeamGameStats.BlockedShots t = sum_list (map SkaterStats.BlockedShots skaters) \<and>
       TeamGameStats.Giveaways t = sum_list (map SkaterStats.Giveaways skaters) \<and>
       TeamGameStats.Takeaways t = sum_list (map SkaterStats.Takeaways skaters) \<and>
       PowerPlayOpportunities t = sum_list (map PowerPlayGoalsAgainst (Goalies stats)) \<and>
       FaceoffTotal t = sum_list (map Shifts centers) \<and>
       FaceoffWins t
         = sum_list
             (map (\<lambda>s. int_of_f64 pf
                          (f64_mul_add pf (f64_of_int (Shifts s)) (FaceoffWinningPctg s)
                             (Fin (1 / 2))))
                centers)) \<and>
   (SkaterStats.Position c = PositionCenter \<and> Shifts c = 27
      \<and> FaceoffWinningPctg c = f64_round (11 / 20) \<longrightarrow>
    FaceoffTotal (FromTeamPlayerStats pf \<lparr>Forwards = [c], Defense = [], Goalies = []\<rparr>) = 27 \<and>
    FaceoffWins (FromTeamPlayerStats pf \<lparr>Forwards = [c], Defense = [], Goalies = []\<rparr>) = 15)"
proof -
  have tf: "takes_faceoffs = (\<lambda>s. SkaterStats.Position s = PositionCenter
                              \<and> f64_gt (FaceoffWinningPctg s) (Fin 0))"
    by (simp add: fun_eq_iff takes_faceoffs_def)
  have fw: "faceoff_wins pf = (\<lambda>s. int_of_f64 pf
                          (f64_mul_add pf (f64_of_int (Shifts s)) (FaceoffWinningPctg s)
                             (Fin (1 / 2))))"
    by (simp add: fun_eq_iff faceoff_wins_def)
  have gp: "goalie_pim = (\<lambda>g. case GoalieStats.PIM g of None \<Rightarrow> 0 | Some pim \<Rightarrow> pim)"
    by (simp add: fun_eq_iff goalie_pim_def)
  have general: "let skaters = Forwards stats @ Defense stats;
        centers = filter (\<lambda>s. SkaterStats.Position s = PositionCenter
                              \<and> f64_gt (FaceoffWinningPctg s) (Fin 0)) skaters;
        t = FromTeamPlayerStats pf stats
    in ShotsOnGoal t = sum_list (map SOG skaters) \<and>
       TeamGameStats.PowerPlayGoals t = sum_list (map SkaterStats.PowerPlayGoals skaters) \<and>
       PenaltyMinutes t
         = sum_list (map SkaterStats.PIM skaters)
           + sum_list (map (\<lambda>g. case GoalieStats.PIM g of None \<Rightarrow> 0 | Some pim \<Rightarrow> pim)
                         (Goalies stats)) \<and>
       TeamGameStats.Hits t = sum_list (map SkaterStats.Hits skaters) \<and>
       TeamGameStats.BlockedShots t = sum_list (map SkaterStats.BlockedShots skaters) \<and>
       TeamGameStats.Giveaways t = sum_list (map SkaterStats.Giveaways skaters) \<and>
       TeamGameStats.Takeaways t = sum_list (map SkaterStats.Takeaways skaters) \<and>
       PowerPlayOpportunities t = sum_list (map PowerPlayGoalsAgainst (Goalies stats)) \<and>
       FaceoffTotal t = sum_list (map Shifts centers) \<and>
       FaceoffWins t
         = sum_list
             (map (\<lambda>s. int_of_f64 pf
                          (f64_mul_add pf (f64_of_int (Shifts s)) (FaceoffWinningPctg s)
                             (Fin (1 / 2))))
                centers)"
    unfolding Let_def tf [symmetric] fw [symmetric] gp [symmetric]
    by (intro conjI FromTeamPlayerStats_fields)
  have example: "FaceoffTotal (FromTeamPlayerStats pf \<lparr>Forwards = [c], Defense = [], Goalies = []\<rparr>) = 27 \<and>
    FaceoffWins (FromTeamPlayerStats pf \<lparr>Forwards = [c], Defense = [], Goalies = []\<rparr>) = 15"
    if c: "SkaterStats.Position c = PositionCenter" "Shifts c = 27"
      "FaceoffWinningPctg c = f64_round (11 / 20)"
  proof -
    have "takes_faceoffs c"
      using c f64_round_11_20_pos by (simp add: takes_faceoffs_def)
    then show ?thesis
      using c faceoff_wins_27_055 [of c pf] by (simp add: FromTeamPlayerStats_fields)
  qed
  from general example show ?thesis
    by blast
qed

text \<open>
  Claim C1, as stated, fails where it calls the faceoffs won a rounding of the product:
  for a center with \<open>Shifts = -3\<close> and the percentage 0.75 the product is \<open>-2.25\<close>
  (exactly, also in float64), whose nearest integer is \<open>-2\<close>, and the code adds
  one half and cuts towards zero, which gives \<open>-1\<close>, with or without fusing. Nor is
  the sign the only cause: for a center with one shift and the percentage
  \<open>0.49999999999999994\<close>, the largest float64 below one half, the product is that
  percentage, whose nearest integer is 0, and the code gives 1, since adding one half
  in float64 yields exactly 1.
\<close>

theorem FromTeamPlayerStats_negative_shifts:
  "FaceoffTotal (FromTeamPlayerStats amd64
      \<lparr>Forwards = [SkaterStats_zero\<lparr>SkaterStats.Position := PositionCenter, Shifts := - 3,
                                     FaceoffWinningPctg := Fin (3 / 4)\<rparr>],
       Defense = [], Goalies = []\<rparr>) = - 3 \<and>
   FaceoffWins (FromTeamPlayerStats amd64
      \<lparr>Forwards = [SkaterStats_zero\<lparr>SkaterStats.Position := PositionCenter, Shifts := - 3,
                                     FaceoffWinningPctg := Fin (3 / 4)\<rparr>],
       Defense = [], Goalies = []\<rparr>) = - 1 \<and>
   FaceoffWins (FromTeamPlayerStats arm64
      \<lparr>Forwards = [SkaterStats_zero\<lparr>SkaterStats.Position := PositionCenter, Shifts := - 3,
                                     FaceoffWinningPctg := Fin (3 / 4)\<rparr>],
       Defense = [], Goalies = []\<rparr>) = - 1 \<and>
   round (- 3 * (3 / 4) :: rat) = - 2 \<and>
   FaceoffWins (FromTeamPlayerStats amd64
      \<lparr>Forwards = [SkaterStats_zero\<lparr>SkaterStats.Position := PositionCenter, Shifts := 1,
           FaceoffWinningPctg := Fin (9007199254740991 / 18014398509481984)\<rparr>],
       Defense = [], Goalies = []\<rparr>) = 1 \<and>
   FaceoffWins (FromTeamPlayerStats arm64
      \<lparr>Forwards = [SkaterStats_zero\<lparr>SkaterStats.Position := PositionCenter, Shifts := 1,
           FaceoffWinningPctg := Fin (9007199254740991 / 18014398509481984)\<rparr>],
       Defense = [], Goalies = []\<rparr>) = 1 \<and>
   f64_round (9007199254740991 / 18014398509481984)
     = Fin (9007199254740991 / 18014398509481984) \<and>
   round (1 * (9007199254740991 / 18014398509481984) :: rat) = 0"
proof -
  define c where "c = SkaterStats_zero\<lparr>SkaterStats.Position := PositionCenter, Shifts := - 3,
                                     FaceoffWinningPctg := Fin (3 / 4)\<rparr>"
  define d where "d = SkaterStats_zero\<lparr>SkaterStats.Position := PositionCenter, Shifts := 1,
           FaceoffWinningPctg := Fin (9007199254740991 / 18014398509481984)\<rparr>"
  have c: "Shifts c = - 3" "FaceoffWinningPctg c = Fin (3 / 4)" "takes_faceoffs c"
    by (simp_all add: c_def takes_faceoffs_def)
  have d: "Shifts d = 1" "FaceoffWinningPctg d = Fin (9007199254740991 / 18014398509481984)"
    "takes_faceoffs d"
    by (simp_all add: d_def takes_faceoffs_def)
  have wc: "faceoff_wins pf c = - 1" for pf
    using c(1,2) by (rule faceoff_wins_neg3_075)
  have wd: "faceoff_wins pf d = 1" for pf
    using d(1,2) by (rule faceoff_wins_one_shift)
  have r: "round (- 3 * (3 / 4) :: rat) = - 2"
    "round (1 * (9007199254740991 / 18014398509481984) :: rat) = 0"
    by (simp_all add: round_def)
  have e: "f64_round (9007199254740991 / 18014398509481984)
     = Fin (9007199254740991 / 18014398509481984)"
    by (rule f64_round_evalI [where e = "- 2"]) (simp_all add: f64_eval)
  have 1: "FaceoffTotal (FromTeamPlayerStats amd64 \<lparr>Forwards = [c], Defense = [], Goalies = []\<rparr>) = - 3"
    and 2: "FaceoffWins (FromTeamPlayerStats pf \<lparr>Forwards = [c], Defense = [], Goalies = []\<rparr>) = - 1"
    and 3: "FaceoffWins (FromTeamPlayerStats pf \<lparr>Forwards = [d], Defense = [], Goalies = []\<rparr>) = 1"
    for pf
    using c d wc wd by (simp_all add: FromTeamPlayerStats_fields)
  show ?thesis
    unfolding c_def [symmetric] d_def [symmetric]
    by (intro conjI 1 2 3 r e)
qed

text \<open>
  The statement at one forward (4 shots, 0 penalty minutes, 3 hits) with one defenseman
  (3 shots, 4 penalty minutes, 8 hits), and at the single center with 27 shifts.
\<close>

theorem FromTeamPlayerStats_totals_witness:
  "ShotsOnGoal (FromTeamPlayerStats amd64
      \<lparr>Forwards = [SkaterStats_zero\<lparr>SOG := 4, SkaterStats.PIM := 0, SkaterStats.Hits := 3\<rparr>],
       Defense = [SkaterStats_zero\<lparr>SOG := 3, SkaterStats.PIM := 4, SkaterStats.Hits := 8\<rparr>],
       Goalies = []\<rparr>) = 7 \<and>
   TeamGameStats.Hits (FromTeamPlayerStats amd64
      \<lparr>Forwards = [SkaterStats_zero\<lparr>SOG := 4, SkaterStats.PIM := 0, SkaterStats.Hits := 3\<rparr>],
       Defense = [SkaterStats_zero\<lparr>SOG := 3, SkaterStats.PIM := 4, SkaterStats.Hits := 8\<rparr>],
       Goalies = []\<rparr>) = 11 \<and>
   PenaltyMinutes (FromTeamPlayerStats amd64
      \<lparr>Forwards = [SkaterStats_zero\<lparr>SOG := 4, SkaterStats.PIM := 0, SkaterStats.Hits := 3\<rparr>],
       Defense = [SkaterStats_zero\<lparr>SOG := 3, SkaterStats.PIM := 4, SkaterStats.Hits := 8\<rparr>],
       Goalies = []\<rparr>) = 4 \<and>
   FaceoffWins (FromTeamPlayerStats arm64
      \<lparr>Forwards = [SkaterStats_zero\<lparr>SkaterStats.Position := PositionCenter, Shifts := 27,
                                     FaceoffWinningPctg := f64_round (11 / 20)\<rparr>],
       Defense = [], Goalies = []\<rparr>) = 15"
proof -
  define st where "st =
     \<lparr>Forwards = [SkaterStats_zero\<lparr>SOG := 4, SkaterStats.PIM := 0, SkaterStats.Hits := 3\<rparr>],
      Defense = [SkaterStats_zero\<lparr>SOG := 3, SkaterStats.PIM := 4, SkaterStats.Hits := 8\<rparr>],
      Goalies = []\<rparr>"
  define cen where "cen =
     SkaterStats_zero\<lparr>SkaterStats.Position := PositionCenter, Shifts := 27,
                       FaceoffWinningPctg := f64_round (11 / 20)\<rparr>"
  note general = FromTeamPlayerStats_totals [where pf = amd64 and stats = st and c = cen,
      THEN conjunct1, unfolded Let_def]
  have "ShotsOnGoal (FromTeamPlayerStats amd64 st) = sum_list (map SOG (Forwards st @ Defense st))"
    using general by blast
  then have a: "ShotsOnGoal (FromTeamPlayerStats amd64 st) = 7"
    by (simp add: st_def)
  have "TeamGameStats.Hits (FromTeamPlayerStats amd64 st)
      = sum_list (map SkaterStats.Hits (Forwards st @ Defense st))"
    using general by blast
  then have b: "TeamGameStats.Hits (FromTeamPlayerStats amd64 st) = 11"
    by (simp add: st_def)
  have "PenaltyMinutes (FromTeamPlayerStats amd64 st)
      = sum_list (map SkaterStats.PIM (Forwards st @ Defense st))
        + sum_list (map (\<lambda>g. case GoalieStats.PIM g of None \<Rightarrow> 0 | Some pim \<Rightarrow> pim)
                      (Goalies st))"
    using general by blast
  then have c: "PenaltyMinutes (FromTeamPlayerStats amd64 st) = 4"
    by (simp add: st_def)
  have "SkaterStats.Position cen = PositionCenter \<and> Shifts cen = 27
      \<and> FaceoffWinningPctg cen = f64_round (11 / 20)"
    by (simp add: cen_def)
  then have d: "FaceoffWins (FromTeamPlayerStats arm64
      \<lparr>Forwards = [cen], Defense = [], Goalies = []\<rparr>) = 15"
    using FromTeamPlayerStats_totals [where pf = arm64 and stats = st and c = cen, THEN conjunct2]
    by blast
  from a b c d show ?thesis
    unfolding st_def cen_def by blast
qed

end
